theory Spec2Isabelle
  imports Main "HOL-Library.Word" "HOL-Library.Extended_Nat" "HOL-Library.Sublist"
begin

unbundle bit_operations_syntax

section \<open>Data of the server (src/server.js)\<close>

text \<open>
  A JavaScript string is a sequence of UTF-16 code units: \<open>s.length\<close> counts them and
  \<open>s.charCodeAt(i)\<close> reads one. A \<open>Buffer\<close> or \<open>Uint8Array\<close> is a list of bytes.
  String literals of the source are written with \<open>js\<close>.
\<close>

type_synonym byte = "8 word"
type_synonym jsstring = "16 word list"

definition js :: "string \<Rightarrow> jsstring" where
  "js s = map (\<lambda>c. of_nat (of_char c)) s"

definition MAX_ROOMS :: nat where
  "MAX_ROOMS = 80"

definition LANDLORD_TOP_N :: nat where
  "LANDLORD_TOP_N = 10"

definition CACHE_TTL_MS :: int where
  "CACHE_TTL_MS = 30 * 1000"

section \<open>hashToRoom\<close>

text \<open>
  \<^verbatim>\<open>
  function hashToRoom(wallet, maxRooms) {
    let hash = 0;
    for (let i = 0; i < wallet.length; i++) {
      hash = (hash * 31 + wallet.charCodeAt(i)) >>> 0;
    }
    return (hash % maxRooms) + 1;
  }
  \<close>
  \<open>hash\<close> is below \<open>2^32\<close> at the head of every iteration and a code unit is below
  \<open>2^16\<close>, so \<open>hash * 31 + code\<close> is below \<open>2^53\<close> and exact as a Number; \<open>>>> 0\<close>
  (ToUint32) reduces it modulo \<open>2^32\<close>. The room count is a positive integer.
\<close>

definition hashToRoom :: "jsstring \<Rightarrow> nat \<Rightarrow> nat" where
  "hashToRoom wallet maxRooms =
     (let hash = foldl (\<lambda>hash c. (hash * 31 + unat c) mod 2 ^ 32) 0 wallet
      in (hash mod maxRooms) + 1)"

section \<open>Base58 text of a public key\<close>

text \<open>
  \<open>new PublicKey(bytes).toBase58()\<close> of @solana/web3.js is the bs58 encoding of the 32
  bytes: one \<open>1\<close> for every leading zero byte, followed by the base-58 digits of the
  big-endian value of the bytes, most significant first, in the Bitcoin alphabet.
\<close>

definition ALPHABET :: string where
  "ALPHABET = ''123456789ABCDEFGHJKLMNPQRSTUVWXYZabcdefghijkmnopqrstuvwxyz''"

definition be_value :: "byte list \<Rightarrow> nat" where
  "be_value bs = foldl (\<lambda>acc b. acc * 256 + unat b) 0 bs"

fun base58_digits :: "nat \<Rightarrow> nat list" where
  "base58_digits n = (if n = 0 then [] else base58_digits (n div 58) @ [n mod 58])"

definition toBase58 :: "byte list \<Rightarrow> jsstring" where
  "toBase58 bs =
     js (replicate (length (takeWhile (\<lambda>b. b = 0) bs)) (CHR ''1'')
         @ map (\<lambda>d. ALPHABET ! d) (base58_digits (be_value bs)))"

section \<open>Numbers\<close>

text \<open>
  A BigInt is an unbounded integer; the balances are never negative, so they are
  naturals. \<open>Number(balance)\<close> is the IEEE 754 double nearest to the BigInt, ties to the
  even significand, and \<open>+Infinity\<close> from \<open>2^1024 - 2^970\<close> on. The doubles that arise
  this way are non-negative integers or \<open>+Infinity\<close>: they are modelled by their exact
  value in \<^typ>\<open>enat\<close>. \<open>round_shift n\<close> is the number of low bits of \<open>n\<close> that do not
  fit into the 53-bit significand.
\<close>

type_synonym number = enat

fun round_shift :: "nat \<Rightarrow> nat" where
  "round_shift n = (if n < 2 ^ 53 then 0 else Suc (round_shift (n div 2)))"

definition bigint_to_number :: "nat \<Rightarrow> number" where
  "bigint_to_number n =
     (let e = round_shift n;
          q = n div 2 ^ e;
          r = n mod 2 ^ e;
          q' = (if 2 * r > 2 ^ e \<or> (2 * r = 2 ^ e \<and> odd q) then q + 1 else q);
          v = q' * 2 ^ e
      in if v < 2 ^ 1024 then enat v else \<infinity>)"

text \<open>
  \<open>Number.prototype.toString()\<close> (ECMA-262, Number::toString, radix 10) of such a value
  \<open>x\<close>: take integers \<open>n\<close>, \<open>k\<close>, \<open>s\<close> with \<open>k \<ge> 1\<close>, \<open>10^(k-1) \<le> s < 10^k\<close>, such that
  \<open>s * 10^(n-k)\<close> converts to \<open>x\<close> and \<open>k\<close> is as small as possible (of several \<open>s\<close> the
  one closest to \<open>x\<close>, the even one on a tie); up to \<open>n = 21\<close> print the digits of \<open>s\<close>
  followed by \<open>n - k\<close> zeros, beyond that the exponential form. For an integral \<open>x\<close>
  with \<open>d\<close> digits the candidates with \<open>k\<close> digits are the two multiples of
  \<open>10^(d-k)\<close> around \<open>x\<close>; \<open>shortest x j\<close> tries \<open>d - k = j, j - 1, \<dots>, 0\<close> and returns the
  chosen \<open>s * 10^(n-k)\<close>. For an \<open>x\<close> that is a double the search ends at \<open>d - k = 0\<close> at the
  latest, with \<open>x\<close> itself; \<open>exponential m\<close> is the text for \<open>n > 21\<close>, the digits of \<open>s\<close>
  with a point after the first and the exponent \<open>n - 1\<close>.
\<close>

fun decimal_digits :: "nat \<Rightarrow> nat list" where
  "decimal_digits n = (if n = 0 then [] else decimal_digits (n div 10) @ [n mod 10])"

definition digit_char :: "nat \<Rightarrow> char" where
  "digit_char d = ''0123456789'' ! d"

definition decimal :: "nat \<Rightarrow> string" where
  "decimal n = (if n = 0 then ''0'' else map digit_char (decimal_digits n))"

definition roundtrips :: "nat \<Rightarrow> nat \<Rightarrow> bool" where
  "roundtrips x m \<longleftrightarrow> bigint_to_number m = enat x"

definition pick :: "nat \<Rightarrow> nat \<Rightarrow> nat option" where
  "pick x p =
     (let lo = (x div p) * p; hi = lo + p in
      if roundtrips x lo \<and> roundtrips x hi
      then Some (if x - lo < hi - x \<or> (x - lo = hi - x \<and> even (x div p)) then lo else hi)
      else if roundtrips x lo then Some lo
      else if roundtrips x hi then Some hi
      else None)"

fun shortest :: "nat \<Rightarrow> nat \<Rightarrow> nat" where
  "shortest x j =
     (case pick x (10 ^ j) of
        Some m \<Rightarrow> m
      | None \<Rightarrow> if j = 0 then x else shortest x (j - 1))"

fun strip_zeros :: "nat \<Rightarrow> nat" where
  "strip_zeros m = (if m = 0 \<or> m mod 10 \<noteq> 0 then m else strip_zeros (m div 10))"

definition exponential :: "nat \<Rightarrow> string" where
  "exponential m =
     (let ds = map digit_char (decimal_digits (strip_zeros m));
          e = length (decimal_digits m) - 1
      in (case ds of
            [] \<Rightarrow> []
          | [d] \<Rightarrow> [d]
          | d # rest \<Rightarrow> d # CHR ''.'' # rest) @ ''e+'' @ decimal e)"

definition number_to_string :: "number \<Rightarrow> jsstring" where
  "number_to_string v =
     (case v of
        \<infinity> \<Rightarrow> js ''Infinity''
      | enat x \<Rightarrow>
          if x = 0 then js ''0''
          else let m = shortest x (length (decimal_digits x) - 1)
               in if m < 10 ^ 21 then js (decimal m) else js (exponential m))"

section \<open>Aggregation of the token accounts\<close>

text \<open>
  \<open>holdersMap\<close> is a JavaScript \<open>Map\<close>: it iterates in insertion order, and \<open>set\<close> on a key
  that is present replaces the value where it stands. It is an association list with
  distinct keys.
\<close>

type_synonym holdersMap = "(jsstring \<times> nat) list"

definition Map_get :: "holdersMap \<Rightarrow> jsstring \<Rightarrow> nat option" where
  "Map_get m k = map_of m k"

fun Map_set :: "holdersMap \<Rightarrow> jsstring \<Rightarrow> nat \<Rightarrow> holdersMap" where
  "Map_set [] k v = [(k, v)]"
| "Map_set ((k', v') # m) k v =
     (if k' = k then (k, v) # m else (k', v') # Map_set m k v)"

definition slice :: "nat \<Rightarrow> nat \<Rightarrow> 'a list \<Rightarrow> 'a list" where
  "slice start end xs = take (end - start) (drop start xs)"

text \<open>
  \<^verbatim>\<open>
  let amount = 0n;
  for (let i = 0; i < 8; i++) {
    amount |= BigInt(amountBytes[i]) << (8n * BigInt(i));
  }
  \<close>
  Reading past the end of \<open>amountBytes\<close> gives \<open>undefined\<close>, and \<open>BigInt(undefined)\<close>
  throws a TypeError; nothing else happens in the loop, so the loop throws exactly when
  fewer than 8 bytes are there. A thrown error is \<open>Inl\<close> of its message.
\<close>

definition decode_amount :: "byte list \<Rightarrow> jsstring + nat" where
  "decode_amount amountBytes =
     (if length amountBytes < 8 then Inl (js ''Cannot convert undefined to a BigInt'')
      else Inr (foldl (\<lambda>amount i. amount OR push_bit (8 * i) (unat (amountBytes ! i)))
                  0 [0..<8]))"

text \<open>
  \<^verbatim>\<open>
  const holdersMap = new Map();
  for (const { account } of accounts) {
    const data = account.data;
    const amountBytes = data.slice(64, 72);
    ...
    if (amount === 0n) continue;
    const ownerPubkey = new PublicKey(data.slice(32, 64)).toBase58();
    const current = holdersMap.get(ownerPubkey) || 0n;
    holdersMap.set(ownerPubkey, current + amount);
  }
  \<close>
\<close>

fun holders_loop :: "holdersMap \<Rightarrow> byte list list \<Rightarrow> jsstring + holdersMap" where
  "holders_loop holdersMap [] = Inr holdersMap"
| "holders_loop holdersMap (data # accounts) =
     (case decode_amount (slice 64 72 data) of
        Inl err \<Rightarrow> Inl err
      | Inr amount \<Rightarrow>
          if amount = 0 then holders_loop holdersMap accounts
          else let ownerPubkey = toBase58 (slice 32 64 data);
                   current = (case Map_get holdersMap ownerPubkey of
                                None \<Rightarrow> 0 | Some c \<Rightarrow> c)
               in holders_loop (Map_set holdersMap ownerPubkey (current + amount)) accounts)"

section \<open>Ranking\<close>

text \<open>
  \<^verbatim>\<open>
  let holders = Array.from(holdersMap.entries()).map(([wallet, balance]) => ({
    walletAddress: wallet,
    balance: Number(balance)
  }));
  holders.sort((a, b) => b.balance - a.balance);
  const top = holders.slice(0, MAX_ROOMS);
  \<close>
\<close>

record holder =
  walletAddress :: jsstring
  balance :: number

definition holders_of :: "holdersMap \<Rightarrow> holder list" where
  "holders_of holdersMap =
     map (\<lambda>(wallet, balance). \<lparr>walletAddress = wallet, balance = bigint_to_number balance\<rparr>)
       holdersMap"

text \<open>
  The comparator \<open>(a, b) => b.balance - a.balance\<close>. The sort reads the sign of the
  result only, and takes \<open>NaN\<close> (\<open>Infinity - Infinity\<close>) for 0; the difference of two
  of these doubles is 0 only when they are equal.
\<close>

definition compare_desc :: "holder \<Rightarrow> holder \<Rightarrow> int" where
  "compare_desc a b =
     (if balance a < balance b then 1 else if balance b < balance a then - 1 else 0)"

text \<open>
  \<open>Array.prototype.sort\<close> is stable (ECMAScript 2019), and with a consistent comparator
  its result is the one stable arrangement in comparator order: the one insertion sort
  builds from the right.
\<close>

fun insert_sorted :: "('a \<Rightarrow> 'a \<Rightarrow> int) \<Rightarrow> 'a \<Rightarrow> 'a list \<Rightarrow> 'a list" where
  "insert_sorted cmp x [] = [x]"
| "insert_sorted cmp x (y # ys) =
     (if cmp x y \<le> 0 then x # y # ys else y # insert_sorted cmp x ys)"

definition array_sort :: "('a \<Rightarrow> 'a \<Rightarrow> int) \<Rightarrow> 'a list \<Rightarrow> 'a list" where
  "array_sort cmp xs = foldr (insert_sorted cmp) xs []"

definition top_holders :: "holder list \<Rightarrow> holder list" where
  "top_holders holders = take MAX_ROOMS (array_sort compare_desc holders)"

text \<open>
  \<^verbatim>\<open>
  const withRooms = top.map((h, index) => {
    const role = index < LANDLORD_TOP_N ? "Landlord" : "Tenant";
    const roomNumber = hashToRoom(h.walletAddress, MAX_ROOMS);
    const nameRow = getNameStmt.get(h.walletAddress);
    const displayName = nameRow ? nameRow.name : null;
    return { walletAddress: h.walletAddress, roomNumber, role,
             balance: h.balance.toString(), displayName };
  });
  \<close>
  The fields \<open>walletAddress\<close> and \<open>balance\<close> of an entry are \<open>room_walletAddress\<close> and
  \<open>room_balance\<close> here, apart from those of a holder.
\<close>

datatype role = Landlord | Tenant

record room =
  room_walletAddress :: jsstring
  roomNumber :: nat
  role :: role
  room_balance :: jsstring
  displayName :: "jsstring option"

text \<open>The table \<open>display_names\<close>: wallet to \<open>(name, updated_at)\<close>.\<close>

type_synonym names = "jsstring \<Rightarrow> (jsstring \<times> int) option"

definition withRooms :: "names \<Rightarrow> holder list \<Rightarrow> room list" where
  "withRooms db tops =
     map (\<lambda>(index, h).
            \<lparr>room_walletAddress = walletAddress h,
             roomNumber = hashToRoom (walletAddress h) MAX_ROOMS,
             role = (if index < LANDLORD_TOP_N then Landlord else Tenant),
             room_balance = number_to_string (balance h),
             displayName = (case db (walletAddress h) of
                              None \<Rightarrow> None | Some nameRow \<Rightarrow> Some (fst nameRow))\<rparr>)
       (List.enumerate 0 tops)"

text \<open>Lines 98 to 133 of the handler: from the fetched accounts to the entry list.\<close>

definition compute_rooms :: "names \<Rightarrow> byte list list \<Rightarrow> jsstring + room list" where
  "compute_rooms db accounts =
     (case holders_loop [] accounts of
        Inl err \<Rightarrow> Inl err
      | Inr holdersMap \<Rightarrow> Inr (withRooms db (top_holders (holders_of holdersMap))))"

section \<open>State, libraries and responses\<close>

text \<open>
  The module variables \<open>roomsCache\<close>, \<open>roomsCacheMint\<close>, \<open>roomsCacheUpdatedAt\<close> and the
  table \<open>display_names\<close> of the SQLite database are the state of the server. \<open>null\<close> is
  \<open>None\<close>; an array, also the empty one, is truthy.
\<close>

record server =
  roomsCache :: "room list option"
  roomsCacheMint :: "jsstring option"
  roomsCacheUpdatedAt :: int
  display_names :: names

text \<open>
  What the handlers call outside the repository is a parameter:
  \<open>mintPubkey\<close>, the bytes of \<open>new PublicKey(TOKEN_MINT)\<close> built at start-up;
  \<open>PublicKey\<close>, the constructor of @solana/web3.js on a string, giving the 32 bytes of
  the key or throwing; \<open>TextEncoder_encode\<close>, the UTF-8 bytes of a string;
  \<open>nacl_verify message signature publicKey\<close>, \<open>nacl.sign.detached.verify\<close> of
  tweetnacl, which returns a boolean or throws on a bad size.
\<close>

record libs =
  mintPubkey :: "byte list"
  PublicKey :: "jsstring \<Rightarrow> jsstring + byte list"
  TextEncoder_encode :: "jsstring \<Rightarrow> byte list"
  nacl_verify :: "byte list \<Rightarrow> byte list \<Rightarrow> byte list \<Rightarrow> jsstring + bool"

datatype response =
    Rooms "room list" bool
  | NameSaved jsstring jsstring
  | Error nat jsstring

text \<open>
  \<open>Rooms rooms cached\<close> is \<open>200 {rooms, cached}\<close>, \<open>NameSaved walletAddress displayName\<close>
  is \<open>200 {ok: true, walletAddress, displayName}\<close>, \<open>Error status error\<close> is
  \<open>status {error}\<close>.
\<close>

definition truthy :: "jsstring option \<Rightarrow> bool" where
  "truthy v = (case v of None \<Rightarrow> False | Some s \<Rightarrow> s \<noteq> [])"

definition startsWith :: "jsstring \<Rightarrow> jsstring \<Rightarrow> bool" where
  "startsWith s p = prefix p s"

fun includes_str :: "jsstring \<Rightarrow> jsstring \<Rightarrow> bool" where
  "includes_str [] p = (p = [])"
| "includes_str (c # s) p = (startsWith (c # s) p \<or> includes_str s p)"

section \<open>GET /api/rooms\<close>

text \<open>
  The \<open>catch\<close> block of the handler, on \<open>errStr = String(err?.message || err)\<close>.
\<close>

definition rooms_catch :: "jsstring \<Rightarrow> response" where
  "rooms_catch errStr =
     (if includes_str errStr (js ''429'') \<or> includes_str errStr (js ''Too many requests'')
      then Error 503 (js ''Upstream RPC rate-limited. Try again in a minute.'')
      else Error 500 (js ''Failed to load rooms''))"

text \<open>
  The handler is \<open>async\<close> with one \<open>await\<close>, on \<open>connection.getProgramAccounts\<close>. It
  runs in two uninterrupted parts. \<open>rooms_begin\<close> is lines 69 to 96, up to the call:
  it answers (from the cache, or with an error when the \<open>mint\<close> of the query is no
  public key), or it has issued the fetch for \<open>mintBase58\<close> and is suspended with
  \<open>mintBase58\<close> and \<open>now\<close> in its frame. \<open>cache_hit\<close> is the condition of the \<open>if\<close>; under
  it \<open>roomsCache\<close> is not \<open>null\<close>, so the \<open>None\<close> branch below is never taken.
\<close>

datatype begun = Responded response | Awaiting jsstring int

definition cache_hit :: "server \<Rightarrow> jsstring \<Rightarrow> int \<Rightarrow> bool" where
  "cache_hit s mintBase58 now \<longleftrightarrow>
     roomsCache s \<noteq> None
     \<and> roomsCacheMint s = Some mintBase58
     \<and> now - roomsCacheUpdatedAt s < CACHE_TTL_MS"

text \<open>
  Line 69, \<open>req.query.mint ? new PublicKey(req.query.mint) : mintPubkey\<close>: the bytes of
  the requested mint, or the error the constructor throws.
\<close>

definition request_mint :: "libs \<Rightarrow> jsstring option \<Rightarrow> jsstring + byte list" where
  "request_mint lib query_mint =
     (case query_mint of
        Some q \<Rightarrow> if truthy query_mint then PublicKey lib q else Inr (mintPubkey lib)
      | None \<Rightarrow> Inr (mintPubkey lib))"

definition rooms_begin :: "libs \<Rightarrow> server \<Rightarrow> jsstring option \<Rightarrow> int \<Rightarrow> begun" where
  "rooms_begin lib s query_mint now =
     (case request_mint lib query_mint of
        Inl errStr \<Rightarrow> Responded (rooms_catch errStr)
      | Inr mint \<Rightarrow>
          let mintBase58 = toBase58 mint in
          if cache_hit s mintBase58 now
          then (case roomsCache s of
                  Some rooms \<Rightarrow> Responded (Rooms rooms True)
                | None \<Rightarrow> Awaiting mintBase58 now)
          else Awaiting mintBase58 now)"

text \<open>
  \<open>rooms_resume\<close> is the rest, lines 98 to 151, run when the fetch has settled with the
  accounts (the \<open>data\<close> of each) or with an error.
\<close>

definition rooms_resume ::
  "server \<Rightarrow> jsstring \<Rightarrow> int \<Rightarrow> jsstring + byte list list \<Rightarrow> response \<times> server" where
  "rooms_resume s mintBase58 now fetched =
     (case fetched of
        Inl errStr \<Rightarrow> (rooms_catch errStr, s)
      | Inr accounts \<Rightarrow>
          (case compute_rooms (display_names s) accounts of
             Inl errStr \<Rightarrow> (rooms_catch errStr, s)
           | Inr rooms \<Rightarrow>
               (Rooms rooms False,
                s\<lparr>roomsCache := Some rooms,
                  roomsCacheMint := Some mintBase58,
                  roomsCacheUpdatedAt := now\<rparr>)))"

text \<open>A request that nothing else interleaves with.\<close>

definition get_rooms ::
  "libs \<Rightarrow> server \<Rightarrow> jsstring option \<Rightarrow> int \<Rightarrow> jsstring + byte list list
     \<Rightarrow> response \<times> server" where
  "get_rooms lib s query_mint now fetched =
     (case rooms_begin lib s query_mint now of
        Responded r \<Rightarrow> (r, s)
      | Awaiting mintBase58 t \<Rightarrow> rooms_resume s mintBase58 t fetched)"

section \<open>POST /api/display-name\<close>

text \<open>
  The body is \<open>{ walletAddress, displayName, message, signature: number[] }\<close>: three
  strings and an array of integers, each of which may be missing (\<open>None\<close>). An empty
  string is falsy, an array is truthy. \<open>new Uint8Array(signature)\<close> reduces each
  integer modulo 256. The statements of the database are taken to succeed: the lookup
  of a name returns the row or nothing, the upsert writes its row.
\<close>

record body =
  body_walletAddress :: "jsstring option"
  body_displayName :: "jsstring option"
  body_message :: "jsstring option"
  body_signature :: "int list option"

text \<open>
  The \<open>try\<close> block: \<open>Inl\<close> is an exception on its way to the \<open>catch\<close>, \<open>Inr\<close> the
  response sent and the state left. \<open>wallet\<close> and \<open>name\<close> are the \<open>walletAddress\<close> and the
  \<open>displayName\<close> of the body, under the names the upsert gives them; \<open>now\<close> is the
  \<open>Date.now()\<close> of the upsert.
\<close>

definition display_name_try ::
  "libs \<Rightarrow> server \<Rightarrow> body \<Rightarrow> int \<Rightarrow> jsstring + response \<times> server" where
  "display_name_try lib s b now =
     (case (body_walletAddress b, body_displayName b, body_message b, body_signature b) of
        (Some wallet, Some name, Some message, Some signature) \<Rightarrow>
          if wallet = [] \<or> name = [] \<or> message = []
          then Inr (Error 400 (js ''Missing fields''), s)
          else if \<not> startsWith message (js ''RENTFREE_NAME_UPDATE_V1:'')
          then Inr (Error 400 (js ''Invalid message prefix''), s)
          else if length name < 1 \<or> length name > 24
          then Inr (Error 400 (js ''Invalid name length''), s)
          else
            (case PublicKey lib wallet of
               Inl err \<Rightarrow> Inl err
             | Inr pubkey \<Rightarrow>
                 (case nacl_verify lib (TextEncoder_encode lib message)
                         (map word_of_int signature) pubkey of
                    Inl err \<Rightarrow> Inl err
                  | Inr isValid \<Rightarrow>
                      if \<not> isValid
                      then Inr (Error 401 (js ''Signature verification failed''), s)
                      else Inr (NameSaved wallet name,
                                s\<lparr>display_names :=
                                    (display_names s)(wallet \<mapsto> (name, now))\<rparr>)))
      | _ \<Rightarrow> Inr (Error 400 (js ''Missing fields''), s))"

definition post_display_name :: "libs \<Rightarrow> server \<Rightarrow> body \<Rightarrow> int \<Rightarrow> response \<times> server" where
  "post_display_name lib s b now =
     (case display_name_try lib s b now of
        Inl err \<Rightarrow> (Error 500 (js ''Failed to save display name''), s)
      | Inr r \<Rightarrow> r)"

section \<open>The server as a transition system\<close>

text \<open>
  Node runs one handler part at a time. An event is the arrival of a request, which
  runs to its end or to its \<open>await\<close>, or the settling of the fetch of the \<open>k\<close>-th suspended
  request, which then runs to its end. \<open>fetches\<close> logs the mint of every
  \<open>getProgramAccounts\<close> call issued, \<open>responses\<close> what has been sent.
\<close>

datatype event =
    GetRooms "jsstring option" int
  | FetchSettled nat "jsstring + byte list list"
  | PostDisplayName body int

record system =
  srv :: server
  suspended :: "(jsstring \<times> int) list"
  fetches :: "jsstring list"
  responses :: "response list"

fun step :: "libs \<Rightarrow> system \<Rightarrow> event \<Rightarrow> system" where
  "step lib sys (GetRooms query_mint now) =
     (case rooms_begin lib (srv sys) query_mint now of
        Responded r \<Rightarrow> sys\<lparr>responses := responses sys @ [r]\<rparr>
      | Awaiting mintBase58 t \<Rightarrow>
          sys\<lparr>suspended := suspended sys @ [(mintBase58, t)],
              fetches := fetches sys @ [mintBase58]\<rparr>)"
| "step lib sys (FetchSettled k fetched) =
     (if k < length (suspended sys)
      then (case suspended sys ! k of
              (mintBase58, t) \<Rightarrow>
                (case rooms_resume (srv sys) mintBase58 t fetched of
                   (r, s') \<Rightarrow>
                     sys\<lparr>srv := s',
                         suspended := take k (suspended sys) @ drop (Suc k) (suspended sys),
                         responses := responses sys @ [r]\<rparr>))
      else sys)"
| "step lib sys (PostDisplayName b now) =
     (case post_display_name lib (srv sys) b now of
        (r, s') \<Rightarrow> sys\<lparr>srv := s', responses := responses sys @ [r]\<rparr>)"

definition run :: "libs \<Rightarrow> system \<Rightarrow> event list \<Rightarrow> system" where
  "run lib sys evs = foldl (step lib) sys evs"

text \<open>At start-up the cache variables are \<open>null\<close>, \<open>null\<close> and 0; the table is what the file holds.\<close>

definition start :: "names \<Rightarrow> system" where
  "start db =
     \<lparr>srv = \<lparr>roomsCache = None, roomsCacheMint = None, roomsCacheUpdatedAt = 0,
             display_names = db\<rparr>,
      suspended = [], fetches = [], responses = []\<rparr>"

section \<open>Notions of the specification\<close>

text \<open>
  The specification speaks of a record's owner (bytes 32 to 63, as base58 text) and of
  its amount, the little-endian unsigned 64-bit integer in bytes 64 to 71; of the
  aggregate balance of a wallet, the sum of the amounts of its records; and of the
  lexicographic order of wallet addresses. These definitions follow its words, not the
  code.
\<close>

definition le_u64 :: "byte list \<Rightarrow> nat" where
  "le_u64 bs = sum_list (map (\<lambda>i. unat (bs ! i) * 256 ^ i) [0..<8])"

definition record_owner :: "byte list \<Rightarrow> jsstring" where
  "record_owner data = toBase58 (slice 32 64 data)"

definition record_amount :: "byte list \<Rightarrow> nat" where
  "record_amount data = le_u64 (slice 64 72 data)"

definition total_amount :: "byte list list \<Rightarrow> jsstring \<Rightarrow> nat" where
  "total_amount accounts w =
     sum_list (map record_amount (filter (\<lambda>data. record_owner data = w) accounts))"

text \<open>The distinct elements of a list, in the order of their first occurrence.\<close>

fun first_seen :: "'a list \<Rightarrow> 'a list" where
  "first_seen [] = []"
| "first_seen (x # xs) = x # filter (\<lambda>y. y \<noteq> x) (first_seen xs)"

text \<open>Lexicographic order of strings by code unit, as \<open><=\<close> on JavaScript strings.\<close>

fun lex_le :: "jsstring \<Rightarrow> jsstring \<Rightarrow> bool" where
  "lex_le [] ys = True"
| "lex_le (x # xs) [] = False"
| "lex_le (x # xs) (y # ys) = (x < y \<or> (x = y \<and> lex_le xs ys))"

text \<open>
  The ranking the specification asks for: balance descending, and wallet address
  ascending among equal balances.
\<close>

definition ranked_with_tie_break :: "holder list \<Rightarrow> bool" where
  "ranked_with_tie_break hs =
     sorted_wrt (\<lambda>a b. balance b < balance a
                   \<or> (balance a = balance b \<and> lex_le (walletAddress a) (walletAddress b))) hs"

text \<open>
  The roles the specification asks for, with \<open>tops\<close> the ranked holders and \<open>rooms\<close> the
  entries built from them: every Landlord outranks every Tenant, by a greater balance
  or, at equal balance, by the tie-break on the wallet address.
\<close>

definition landlords_outrank_tenants :: "holder list \<Rightarrow> room list \<Rightarrow> bool" where
  "landlords_outrank_tenants tops rooms \<longleftrightarrow>
     (\<forall>i < length rooms. \<forall>j < length rooms.
        role (rooms ! i) = Landlord \<and> role (rooms ! j) = Tenant \<longrightarrow>
          balance (tops ! j) < balance (tops ! i)
          \<or> (balance (tops ! i) = balance (tops ! j)
              \<and> lex_le (walletAddress (tops ! i)) (walletAddress (tops ! j))))"

text \<open>The value of a key in the map, 0 when the key is absent.\<close>

definition value_of :: "holdersMap \<Rightarrow> jsstring \<Rightarrow> nat" where
  "value_of m k = (case map_of m k of None \<Rightarrow> 0 | Some c \<Rightarrow> c)"

text \<open>The entry list of a response (none for an error or a saved name).\<close>

definition rooms_of :: "response \<Rightarrow> room list" where
  "rooms_of r = (case r of Rooms rooms cached \<Rightarrow> rooms | _ \<Rightarrow> [])"

section \<open>Example data\<close>

text \<open>
  Inputs for the examples below. \<open>token_account owner amount\<close> is a 165-byte SPL token
  account with the given owner (32 bytes) at offset 32 and the given amount (8 bytes)
  at offset 64, all other bytes zero; \<open>key k\<close> is the 32-byte key whose last byte is
  \<open>k\<close>. \<open>W1\<close> and \<open>W2\<close> are the base58 texts of \<open>key 1\<close> and \<open>key 2\<close>, \<open>MINT\<close> that of
  \<open>key 9\<close>.
\<close>

definition token_account :: "byte list \<Rightarrow> byte list \<Rightarrow> byte list" where
  "token_account owner amount = replicate 32 0 @ owner @ amount @ replicate 93 0"

definition key :: "byte \<Rightarrow> byte list" where
  "key k = replicate 31 0 @ [k]"

definition W1 :: jsstring where
  "W1 = js ''11111111111111111111111111111112''"

definition W2 :: jsstring where
  "W2 = js ''11111111111111111111111111111113''"

definition MINT :: jsstring where
  "MINT = js ''1111111111111111111111111111111A''"

text \<open>
  The example of the specification: \<open>W1\<close> with amount 500, \<open>W2\<close> with amount 0, and a
  second record of \<open>W1\<close> with amount 300.
\<close>

definition example_accounts :: "byte list list" where
  "example_accounts =
     [token_account (key 1) [244, 1, 0, 0, 0, 0, 0, 0],
      token_account (key 2) [0, 0, 0, 0, 0, 0, 0, 0],
      token_account (key 1) [44, 1, 0, 0, 0, 0, 0, 0]]"

text \<open>Two holders with amount 5 each, \<open>W2\<close> listed before \<open>W1\<close>.\<close>

definition tie_accounts :: "byte list list" where
  "tie_accounts =
     [token_account (key 2) [5, 0, 0, 0, 0, 0, 0, 0],
      token_account (key 1) [5, 0, 0, 0, 0, 0, 0, 0]]"

text \<open>One holder with amount \<open>2^53 + 1 = 9007199254740993\<close> (\<open>1 + 32 * 256^6\<close>).\<close>

definition big_accounts :: "byte list list" where
  "big_accounts = [token_account (key 1) [1, 0, 0, 0, 0, 0, 32, 0]]"

text \<open>Eleven holders: the wallet of \<open>key k\<close> holds \<open>k\<close>, for \<open>k\<close> from 1 to 11.\<close>

definition eleven_accounts :: "byte list list" where
  "eleven_accounts =
     map (\<lambda>k. token_account (key (of_nat k)) [of_nat k, 0, 0, 0, 0, 0, 0, 0]) [1..<12]"

definition eleven_holdersMap :: holdersMap where
  "eleven_holdersMap = map (\<lambda>k. (toBase58 (key (of_nat k)), k)) [1..<12]"

text \<open>
  Eleven holders with amount 5 each, listed from the wallet of \<open>key 11\<close> down to that of
  \<open>key 1\<close>; \<open>W11\<close> is the base58 text of \<open>key 11\<close>.
\<close>

definition W11 :: jsstring where
  "W11 = js ''1111111111111111111111111111111C''"

definition level_accounts :: "byte list list" where
  "level_accounts =
     map (\<lambda>k. token_account (key k) [5, 0, 0, 0, 0, 0, 0, 0])
       [11, 10, 9, 8, 7, 6, 5, 4, 3, 2, 1]"

definition level_holdersMap :: holdersMap where
  "level_holdersMap = map (\<lambda>k. (toBase58 (key k), 5)) [11, 10, 9, 8, 7, 6, 5, 4, 3, 2, 1]"

text \<open>
  Stand-ins for the libraries: the configured mint is \<open>key 9\<close>; the only string that is
  a public key is \<open>W1\<close>; a signature has 64 bytes and is valid when all of them are 7.
\<close>

definition example_lib :: libs where
  "example_lib =
     \<lparr>mintPubkey = key 9,
      PublicKey = (\<lambda>s. if s = W1 then Inr (key 1) else Inl (js ''Invalid public key input'')),
      TextEncoder_encode = map ucast,
      nacl_verify = (\<lambda>message signature publicKey.
                       if length signature \<noteq> 64 then Inl (js ''bad signature size'')
                       else Inr (signature = replicate 64 7))\<rparr>"

text \<open>The size invariant of the transition system.\<close>

definition size_inv :: "system \<Rightarrow> bool" where
  "size_inv sys \<longleftrightarrow>
     (\<forall>rooms. roomsCache (srv sys) = Some rooms \<longrightarrow> length rooms \<le> MAX_ROOMS)
     \<and> (\<forall>r \<in> set (responses sys). length (rooms_of r) \<le> MAX_ROOMS)"

declare round_shift.simps [simp del]
declare decimal_digits.simps [simp del]
declare base58_digits.simps [simp del]
declare strip_zeros.simps [simp del]
declare shortest.simps [simp del]

section \<open>Decoding and aggregation\<close>

lemma not_bit_above:
  fixes a :: nat
  assumes "a < 2 ^ n" "n \<le> m"
  shows "\<not> bit a m"
proof -
  have "a < 2 ^ m"
    using assms by (meson less_le_trans one_le_numeral power_increasing)
  then show ?thesis by (simp add: bit_iff_odd)
qed

lemma or_push_bit_add:
  fixes a b :: nat
  assumes "a < 2 ^ n"
  shows "a OR push_bit n b = a + b * 2 ^ n"
proof -
  have "a + push_bit n b = a OR push_bit n b"
    by (rule disjunctive_add) (use assms not_bit_above in \<open>auto simp: bit_push_bit_iff\<close>)
  then show ?thesis by (simp add: push_bit_eq_mult)
qed

lemma amount_loop_sum:
  fixes bs :: "byte list"
  shows "foldl (\<lambda>amount i. amount OR push_bit (8 * i) (unat (bs ! i))) 0 [0..<k]
           = sum_list (map (\<lambda>i. unat (bs ! i) * 256 ^ i) [0..<k])
         \<and> sum_list (map (\<lambda>i. unat (bs ! i) * 256 ^ i) [0..<k]) < 2 ^ (8 * k)"
proof (induction k)
  case 0
  show ?case by simp
next
  case (Suc k)
  let ?S = "sum_list (map (\<lambda>i. unat (bs ! i) * 256 ^ i) [0..<k])"
  have b: "unat (bs ! k) < 256"
    using unsigned_less [of "bs ! k", where 'a = nat] by simp
  have p: "(256::nat) ^ k = 2 ^ (8 * k)"
    by (simp add: power_mult)
  have "?S OR push_bit (8 * k) (unat (bs ! k)) = ?S + unat (bs ! k) * 2 ^ (8 * k)"
    using Suc.IH by (intro or_push_bit_add) simp
  moreover have "?S + unat (bs ! k) * 2 ^ (8 * k) < 2 ^ (8 * Suc k)"
  proof -
    have "unat (bs ! k) * 2 ^ (8 * k) \<le> 255 * 2 ^ (8 * k)"
      using b by simp
    moreover have "?S < 2 ^ (8 * k)" using Suc.IH by simp
    ultimately have "?S + unat (bs ! k) * 2 ^ (8 * k) < 256 * 2 ^ (8 * k)"
      by linarith
    then show ?thesis by (simp add: power_add)
  qed
  ultimately show ?case
    using Suc.IH by (simp add: p)
qed

lemma decode_amount_le:
  assumes "8 \<le> length bs"
  shows "decode_amount bs = Inr (le_u64 bs)"
  using assms amount_loop_sum [of bs 8] by (simp add: decode_amount_def le_u64_def)

lemma le_u64_bound: "le_u64 bs < 2 ^ 64"
  using amount_loop_sum [of bs 8] by (simp add: le_u64_def)

lemma map_of_Map_set: "map_of (Map_set m k v) = (map_of m)(k \<mapsto> v)"
  by (induction m) (auto simp: fun_eq_iff)

lemma keys_Map_set:
  "map fst (Map_set m k v) = (if k \<in> set (map fst m) then map fst m else map fst m @ [k])"
  by (induction m) (force split: if_splits)+

lemma distinct_Map_set: "distinct (map fst m) \<Longrightarrow> distinct (map fst (Map_set m k v))"
  by (simp add: keys_Map_set)

lemma in_Map_set: "x \<in> set (Map_set m k v) \<Longrightarrow> x = (k, v) \<or> x \<in> set m"
  by (induction m) (auto split: if_splits)

lemma positive_Map_set:
  "\<forall>x \<in> set m. 0 < snd x \<Longrightarrow> 0 < v \<Longrightarrow> \<forall>x \<in> set (Map_set m k v). 0 < snd x"
  using in_Map_set by fastforce

lemma slice_length_72: "72 \<le> length data \<Longrightarrow> length (slice 64 72 data) = 8"
  by (simp add: slice_def)

lemma decode_record: "72 \<le> length data \<Longrightarrow> decode_amount (slice 64 72 data) = Inr (record_amount data)"
  by (simp add: decode_amount_le slice_length_72 record_amount_def)

lemma holders_loop_step:
  assumes "72 \<le> length data"
  shows "holders_loop m (data # accounts) =
           (if record_amount data = 0 then holders_loop m accounts
            else holders_loop (Map_set m (record_owner data) (value_of m (record_owner data) + record_amount data)) accounts)"
  using assms by (simp add: decode_record record_owner_def value_of_def Map_get_def Let_def)

lemma holders_loop_total:
  assumes "\<forall>data \<in> set accounts. 72 \<le> length data"
  shows "\<exists>m'. holders_loop m accounts = Inr m'
          \<and> (\<forall>w. value_of m' w = value_of m w + total_amount accounts w)
          \<and> (distinct (map fst m) \<longrightarrow> distinct (map fst m'))
          \<and> ((\<forall>x \<in> set m. 0 < snd x) \<longrightarrow> (\<forall>x \<in> set m'. 0 < snd x))
          \<and> map fst m' = map fst m @ filter (\<lambda>k. k \<notin> set (map fst m))
                 (first_seen (map record_owner (filter (\<lambda>data. record_amount data \<noteq> 0) accounts)))"
  using assms
proof (induction accounts arbitrary: m)
  case Nil
  show ?case by (simp add: total_amount_def)
next
  case (Cons data accounts)
  have len: "72 \<le> length data" and rest: "\<forall>data \<in> set accounts. 72 \<le> length data"
    using Cons.prems by simp_all
  let ?fs = "first_seen (map record_owner (filter (\<lambda>data. record_amount data \<noteq> 0) accounts))"
  show ?case
  proof (cases "record_amount data = 0")
    case True
    from Cons.IH [OF rest, of m] obtain m' where m':
      "holders_loop m accounts = Inr m'"
      "\<forall>w. value_of m' w = value_of m w + total_amount accounts w"
      "distinct (map fst m) \<longrightarrow> distinct (map fst m')"
      "(\<forall>x \<in> set m. 0 < snd x) \<longrightarrow> (\<forall>x \<in> set m'. 0 < snd x)"
      "map fst m' = map fst m @ filter (\<lambda>k. k \<notin> set (map fst m)) ?fs"
      by blast
    have t: "total_amount (data # accounts) w = total_amount accounts w" for w
      using True by (simp add: total_amount_def)
    have 1: "holders_loop m (data # accounts) = Inr m'"
      using True len m'(1) by (simp add: holders_loop_step del: holders_loop.simps)
    have 2: "\<forall>w. value_of m' w = value_of m w + total_amount (data # accounts) w"
      using m'(2) by (simp add: t)
    have 5: "map fst m' = map fst m @ filter (\<lambda>k. k \<notin> set (map fst m))
                 (first_seen (map record_owner (filter (\<lambda>data. record_amount data \<noteq> 0) (data # accounts))))"
      using m'(5) True by simp
    from 1 2 m'(3) m'(4) 5 show ?thesis by blast
  next
    case False
    let ?o = "record_owner data"
    let ?m1 = "Map_set m ?o (value_of m ?o + record_amount data)"
    from Cons.IH [OF rest, of ?m1] obtain m' where m':
      "holders_loop ?m1 accounts = Inr m'"
      "\<forall>w. value_of m' w = value_of ?m1 w + total_amount accounts w"
      "distinct (map fst ?m1) \<longrightarrow> distinct (map fst m')"
      "(\<forall>x \<in> set ?m1. 0 < snd x) \<longrightarrow> (\<forall>x \<in> set m'. 0 < snd x)"
      "map fst m' = map fst ?m1 @ filter (\<lambda>k. k \<notin> set (map fst ?m1)) ?fs"
      by blast
    have v: "value_of ?m1 w + total_amount accounts w = value_of m w + total_amount (data # accounts) w" for w
      by (simp add: value_of_def map_of_Map_set total_amount_def)
    have 1: "holders_loop m (data # accounts) = Inr m'"
      using False len m'(1) by (simp add: holders_loop_step del: holders_loop.simps)
    have 2: "\<forall>w. value_of m' w = value_of m w + total_amount (data # accounts) w"
      using m'(2) by (simp add: v)
    have d: "distinct (map fst m) \<longrightarrow> distinct (map fst m')"
      using m'(3) distinct_Map_set by blast
    have p: "(\<forall>x \<in> set m. 0 < snd x) \<longrightarrow> (\<forall>x \<in> set m'. 0 < snd x)"
    proof
      assume a: "\<forall>x \<in> set m. 0 < snd x"
      have "\<forall>x \<in> set ?m1. 0 < snd x"
        using a False by (intro positive_Map_set) simp_all
      with m'(4) show "\<forall>x \<in> set m'. 0 < snd x" by blast
    qed
    have k: "map fst ?m1 @ filter (\<lambda>k. k \<notin> set (map fst ?m1)) ?fs
             = map fst m @ filter (\<lambda>k. k \<notin> set (map fst m)) (?o # filter (\<lambda>y. y \<noteq> ?o) ?fs)"
    proof (cases "?o \<in> set (map fst m)")
      case True
      have "filter (\<lambda>k. k \<notin> set (map fst m)) (filter (\<lambda>y. y \<noteq> ?o) ?fs)
             = filter (\<lambda>k. k \<notin> set (map fst m)) ?fs"
        using True by (auto intro: filter_cong)
      with True show ?thesis by (simp add: keys_Map_set)
    next
      case False
      have "filter (\<lambda>k. k \<notin> set (map fst m)) (filter (\<lambda>y. y \<noteq> ?o) ?fs)
             = filter (\<lambda>k. k \<notin> set (map fst m @ [?o])) ?fs"
        by (auto intro: filter_cong)
      with False show ?thesis by (simp add: keys_Map_set)
    qed
    have 5: "map fst m' = map fst m @ filter (\<lambda>k. k \<notin> set (map fst m))
                 (first_seen (map record_owner (filter (\<lambda>data. record_amount data \<noteq> 0) (data # accounts))))"
      using m'(5) False by (simp only: k filter.simps list.map first_seen.simps if_True simp_thms)
    from 1 2 d p 5 show ?thesis by blast
  qed
qed

section \<open>Conversion to Number and to text\<close>

lemma round_shift_small: "n < 2 ^ 53 \<Longrightarrow> round_shift n = 0"
  by (subst round_shift.simps) simp

lemma bigint_to_number_exact: "n < 2 ^ 53 \<Longrightarrow> bigint_to_number n = enat n"
proof -
  assume a: "n < 2 ^ 53"
  have "(2::nat) ^ 53 < 2 ^ 1024" by simp
  with a have "n < 2 ^ 1024" by (rule less_trans)
  then show ?thesis
    using a by (simp add: bigint_to_number_def round_shift_small)
qed

lemma round_shift_quotient:
  "2 ^ 52 \<le> m \<Longrightarrow> 2 ^ 52 \<le> m div 2 ^ round_shift m"
proof (induction m rule: round_shift.induct)
  case (1 n)
  show ?case
  proof (cases "n < 2 ^ 53")
    case True
    then show ?thesis using "1.prems" by (simp add: round_shift_small)
  next
    case False
    then have "2 ^ 52 \<le> n div 2" by simp
    with "1.IH" False have "2 ^ 52 \<le> (n div 2) div 2 ^ round_shift (n div 2)" by simp
    moreover have "round_shift n = Suc (round_shift (n div 2))"
      using False by (subst round_shift.simps) simp
    ultimately show ?thesis
      by (simp add: div_mult2_eq)
  qed
qed

lemma round_shift_large: "2 ^ 53 \<le> m \<Longrightarrow> 0 < round_shift m"
  by (subst round_shift.simps) simp

lemma bigint_to_number_large:
  assumes "2 ^ 53 \<le> m" "bigint_to_number m = enat x"
  shows "2 ^ 53 \<le> x"
proof -
  define e where "e = round_shift m"
  define q where "q = m div 2 ^ e"
  define q' where "q' = (if 2 * (m mod 2 ^ e) > 2 ^ e \<or> (2 * (m mod 2 ^ e) = 2 ^ e \<and> odd q) then q + 1 else q)"
  have e: "0 < e" using assms(1) by (simp add: e_def round_shift_large)
  have "(2::nat) ^ 52 \<le> m" using assms(1) by simp
  then have q: "2 ^ 52 \<le> q" unfolding q_def e_def by (rule round_shift_quotient)
  have "q \<le> q'" by (simp add: q'_def)
  with q have "2 ^ 52 \<le> q'" by simp
  moreover have "(2::nat) ^ 1 \<le> 2 ^ e" using e by (intro power_increasing) simp_all
  ultimately have "2 ^ 52 * 2 ^ 1 \<le> q' * 2 ^ e" by (rule mult_le_mono)
  then have v: "2 ^ 53 \<le> q' * 2 ^ e" by simp
  have "bigint_to_number m = (if q' * 2 ^ e < 2 ^ 1024 then enat (q' * 2 ^ e) else \<infinity>)"
    by (simp add: bigint_to_number_def Let_def e_def q_def q'_def)
  with assms(2) have "x = q' * 2 ^ e" by (simp split: if_splits)
  with v show ?thesis by simp
qed

lemma roundtrips_small: "x < 2 ^ 53 \<Longrightarrow> roundtrips x m \<longleftrightarrow> m = x"
proof
  assume x: "x < 2 ^ 53" and r: "roundtrips x m"
  show "m = x"
  proof (cases "m < 2 ^ 53")
    case True
    with r show ?thesis by (simp add: roundtrips_def bigint_to_number_exact)
  next
    case False
    then have "2 ^ 53 \<le> x"
      using r bigint_to_number_large [of m x] by (simp add: roundtrips_def)
    with x show ?thesis by simp
  qed
next
  assume "x < 2 ^ 53" "m = x"
  then show "roundtrips x m" by (simp add: roundtrips_def bigint_to_number_exact)
qed

lemma pick_small:
  assumes "x < 2 ^ 53" "0 < p"
  shows "pick x p = (if (x div p) * p = x then Some x else None)"
proof -
  have "(x div p) * p + p \<noteq> x"
    using assms(2) by (metis add.commute div_mult_mod_eq mod_less_divisor nat_add_left_cancel_less less_irrefl)
  then show ?thesis
    using assms(1) by (simp add: pick_def Let_def roundtrips_small)
qed

lemma shortest_small: "x < 2 ^ 53 \<Longrightarrow> shortest x j = x"
proof (induction j)
  case 0
  then show ?case by (subst shortest.simps) (simp add: pick_small)
next
  case (Suc j)
  then show ?case by (subst shortest.simps) (simp add: pick_small)
qed

lemma number_to_string_small:
  assumes "x < 2 ^ 53"
  shows "number_to_string (enat x) = js (decimal x)"
proof -
  have "(2::nat) ^ 53 < 10 ^ 21" by simp
  with assms have "x < 10 ^ 21" by (rule less_trans)
  then show ?thesis
    using assms by (simp add: number_to_string_def shortest_small decimal_def)
qed

lemma round_shift_54: "2 ^ 53 \<le> m \<Longrightarrow> m < 2 ^ 54 \<Longrightarrow> round_shift m = 1"
  by (subst round_shift.simps) (simp add: round_shift_small)

lemma bigint_to_number_54:
  assumes "2 ^ 53 \<le> m" "m < 2 ^ 54"
  shows "bigint_to_number m = enat (2 * (m div 2 + (if odd m \<and> odd (m div 2) then 1 else 0)))"
proof -
  have r: "2 * (m mod 2) = 2 \<longleftrightarrow> odd m"
    by (simp add: odd_iff_mod_2_eq_one)
  have r2: "\<not> 2 < 2 * (m mod 2)"
    by simp
  have "2 * (m div 2 + 1) < 2 ^ 1024"
    using assms(2) by simp
  then show ?thesis
    using assms r r2 by (simp add: bigint_to_number_def Let_def round_shift_54 mult.commute)
qed

lemma shortest_2_53: "shortest 9007199254740992 15 = 9007199254740992"
  by (simp add: shortest.simps pick_def Let_def roundtrips_def bigint_to_number_54 bigint_to_number_exact)

lemma ndigits_2_53: "length (decimal_digits 9007199254740992) = 16"
  by (simp add: decimal_digits.simps)

lemma number_to_string_2_53:
  "number_to_string (enat 9007199254740992) = js (decimal 9007199254740992)"
  by (simp add: number_to_string_def shortest_2_53 ndigits_2_53)

lemma decimal_2_53: "decimal 9007199254740992 = ''9007199254740992''"
  by (simp add: decimal_def digit_char_def decimal_digits.simps)

lemma balance_string_exact:
  assumes "n \<le> 2 ^ 53"
  shows "number_to_string (bigint_to_number n) = js (decimal n)"
proof (cases "n < 2 ^ 53")
  case True
  then show ?thesis by (simp add: bigint_to_number_exact number_to_string_small)
next
  case False
  with assms have n: "n = 9007199254740992" by simp
  have "bigint_to_number 9007199254740992 = enat 9007199254740992"
    by (simp add: bigint_to_number_54)
  with n show ?thesis by (simp only: number_to_string_2_53)
qed

section \<open>Sorting and the entry list\<close>

lemma compare_desc_le: "compare_desc a b \<le> 0 \<longleftrightarrow> balance b \<le> balance a"
  by (auto simp: compare_desc_def)

lemma set_insert_sorted: "set (insert_sorted cmp x ys) = insert x (set ys)"
  by (induction ys) auto

lemma length_insert_sorted: "length (insert_sorted cmp x ys) = Suc (length ys)"
  by (induction ys) auto

lemma set_array_sort: "set (array_sort cmp xs) = set xs"
  by (induction xs) (simp_all add: array_sort_def set_insert_sorted)

lemma length_array_sort: "length (array_sort cmp xs) = length xs"
  by (induction xs) (simp_all add: array_sort_def length_insert_sorted)

lemma sorted_insert_sorted:
  "sorted_wrt (\<lambda>a b. balance b \<le> balance a) ys
   \<Longrightarrow> sorted_wrt (\<lambda>a b. balance b \<le> balance a) (insert_sorted compare_desc x ys)"
proof (induction ys)
  case Nil
  show ?case by simp
next
  case (Cons y ys)
  show ?case
  proof (cases "compare_desc x y \<le> 0")
    case True
    then have "balance y \<le> balance x" by (simp add: compare_desc_le)
    with Cons.prems True show ?thesis by (auto intro: order_trans)
  next
    case False
    then have "balance x \<le> balance y" by (simp add: compare_desc_le)
    with Cons False show ?thesis by (auto simp: set_insert_sorted)
  qed
qed

lemma sorted_array_sort:
  "sorted_wrt (\<lambda>a b. balance b \<le> balance a) (array_sort compare_desc xs)"
  by (induction xs) (simp_all add: array_sort_def sorted_insert_sorted)

lemma filter_insert_sorted:
  "filter (\<lambda>h. balance h = v) (insert_sorted compare_desc x ys)
     = (if balance x = v then x # filter (\<lambda>h. balance h = v) ys
        else filter (\<lambda>h. balance h = v) ys)"
  by (induction ys) (auto simp: compare_desc_le)

lemma array_sort_stable:
  "filter (\<lambda>h. balance h = v) (array_sort compare_desc xs) = filter (\<lambda>h. balance h = v) xs"
  by (induction xs) (simp_all add: array_sort_def filter_insert_sorted)

lemma length_top_holders: "length (top_holders hs) = min (length hs) MAX_ROOMS"
  by (simp add: top_holders_def length_array_sort min.commute)

lemma sorted_top_holders:
  "sorted_wrt (\<lambda>a b. balance b \<le> balance a) (top_holders hs)"
  unfolding top_holders_def
  using sorted_array_sort by (rule sorted_wrt_take)

lemma set_top_holders: "set (top_holders hs) \<subseteq> set hs"
  using set_take_subset [of MAX_ROOMS "array_sort compare_desc hs"]
  by (simp add: top_holders_def set_array_sort)

lemma length_withRooms: "length (withRooms db tops) = length tops"
  by (simp add: withRooms_def)

lemma nth_withRooms:
  "i < length tops \<Longrightarrow>
     withRooms db tops ! i =
       \<lparr>room_walletAddress = walletAddress (tops ! i),
        roomNumber = hashToRoom (walletAddress (tops ! i)) MAX_ROOMS,
        role = (if i < LANDLORD_TOP_N then Landlord else Tenant),
        room_balance = number_to_string (balance (tops ! i)),
        displayName = (case db (walletAddress (tops ! i)) of
                         None \<Rightarrow> None | Some nameRow \<Rightarrow> Some (fst nameRow))\<rparr>"
  by (simp add: withRooms_def nth_enumerate_eq)

lemma roles_withRooms:
  "map role (withRooms db tops) =
     map (\<lambda>i. if i < LANDLORD_TOP_N then Landlord else Tenant) [0..<length tops]"
  by (rule nth_equalityI) (simp_all add: length_withRooms nth_withRooms)

lemma count_landlords_upt:
  "length (filter (\<lambda>r. r = Landlord) (map (\<lambda>i. if i < k then Landlord else Tenant) [0..<n])) = min n k"
  by (induction n) auto

lemma count_landlords:
  "length (filter (\<lambda>e. role e = Landlord) (withRooms db tops)) = min (length tops) LANDLORD_TOP_N"
proof -
  have "length (filter (\<lambda>e. role e = Landlord) (withRooms db tops))
          = length (filter (\<lambda>r. r = Landlord) (map role (withRooms db tops)))"
    by (simp add: filter_map comp_def)
  then show ?thesis
    by (simp only: roles_withRooms count_landlords_upt)
qed

lemma wallets_withRooms: "map room_walletAddress (withRooms db tops) = map walletAddress tops"
  by (rule nth_equalityI) (simp_all add: length_withRooms nth_withRooms)

lemma in_withRooms:
  "e \<in> set (withRooms db tops) \<Longrightarrow>
     \<exists>h \<in> set tops. room_walletAddress e = walletAddress h
        \<and> room_balance e = number_to_string (balance h)
        \<and> roomNumber e = hashToRoom (walletAddress h) MAX_ROOMS"
  by (auto simp: withRooms_def in_set_enumerate_eq)

lemma compute_rooms_Inr:
  "holders_loop [] accounts = Inr holdersMap \<Longrightarrow>
     compute_rooms db accounts = Inr (withRooms db (top_holders (holders_of holdersMap)))"
  by (simp add: compute_rooms_def)

lemma compute_rooms_InrD:
  "compute_rooms db accounts = Inr rooms \<Longrightarrow>
     \<exists>holdersMap. holders_loop [] accounts = Inr holdersMap
        \<and> rooms = withRooms db (top_holders (holders_of holdersMap))"
  by (auto simp: compute_rooms_def split: sum.splits)

lemma length_compute_rooms:
  "compute_rooms db accounts = Inr rooms \<Longrightarrow> length rooms \<le> MAX_ROOMS"
  by (auto dest!: compute_rooms_InrD simp: length_withRooms length_top_holders)

lemma rooms_of_holders:
  "holders_loop [] accounts = Inr m \<Longrightarrow>
     compute_rooms db accounts = Inr (withRooms db (take MAX_ROOMS (array_sort compare_desc (holders_of m))))"
  by (simp add: compute_rooms_def top_holders_def)

section \<open>More on aggregation\<close>

lemma aggregate_165:
  assumes "\<forall>data \<in> set accounts. length data = 165"
  shows "\<exists>holdersMap. holders_loop [] accounts = Inr holdersMap
           \<and> distinct (map fst holdersMap)
           \<and> (\<forall>x \<in> set holdersMap. 0 < snd x)
           \<and> (\<forall>w. value_of holdersMap w = total_amount accounts w)
           \<and> map fst holdersMap
               = first_seen (map record_owner (filter (\<lambda>data. record_amount data \<noteq> 0) accounts))"
proof -
  have "\<forall>data \<in> set accounts. 72 \<le> length data"
    using assms by simp
  from holders_loop_total [OF this, of "[]"] obtain m' where
    "holders_loop [] accounts = Inr m'"
    "\<forall>w. value_of m' w = value_of [] w + total_amount accounts w"
    "distinct (map fst m')" "\<forall>x \<in> set m'. 0 < snd x"
    "map fst m' = first_seen (map record_owner (filter (\<lambda>data. record_amount data \<noteq> 0) accounts))"
    by auto
  moreover have "value_of [] w = 0" for w
    by (simp add: value_of_def)
  ultimately show ?thesis by auto
qed

lemma map_of_positive:
  assumes "distinct (map fst m)" "\<forall>x \<in> set m. 0 < snd x"
  shows "map_of m w = (if value_of m w = 0 then None else Some (value_of m w))"
proof (cases "map_of m w")
  case None
  then show ?thesis by (simp add: value_of_def)
next
  case (Some v)
  then have "(w, v) \<in> set m" by (rule map_of_SomeD)
  with assms(2) have "0 < v" by fastforce
  with Some show ?thesis by (simp add: value_of_def)
qed

lemma decode_amount_short: "length bs < 8 \<Longrightarrow> \<exists>err. decode_amount bs = Inl err"
  by (simp add: decode_amount_def)

lemma holders_loop_lengths:
  "holders_loop m accounts = Inr m' \<Longrightarrow> \<forall>data \<in> set accounts. 72 \<le> length data"
proof (induction accounts arbitrary: m)
  case Nil
  show ?case by simp
next
  case (Cons data accounts)
  have len: "72 \<le> length data"
  proof (rule ccontr)
    assume "\<not> 72 \<le> length data"
    then have "length (slice 64 72 data) < 8" by (simp add: slice_def)
    then obtain err where "decode_amount (slice 64 72 data) = Inl err"
      using decode_amount_short by blast
    with Cons.prems show False by simp
  qed
  from Cons.prems len have "\<exists>m1. holders_loop m1 accounts = Inr m'"
    by (auto simp: holders_loop_step simp del: holders_loop.simps split: if_splits)
  with Cons.IH len show ?case by auto
qed

lemma holders_loop_result:
  assumes "holders_loop [] accounts = Inr holdersMap"
  shows "distinct (map fst holdersMap)"
    and "\<forall>x \<in> set holdersMap. 0 < snd x"
    and "\<forall>w. value_of holdersMap w = total_amount accounts w"
    and "map fst holdersMap
           = first_seen (map record_owner (filter (\<lambda>data. record_amount data \<noteq> 0) accounts))"
proof -
  from holders_loop_total [OF holders_loop_lengths [OF assms], of "[]"] assms
  have *: "(\<forall>w. value_of holdersMap w = value_of [] w + total_amount accounts w)
          \<and> distinct (map fst holdersMap) \<and> (\<forall>x \<in> set holdersMap. 0 < snd x)
          \<and> map fst holdersMap
           = first_seen (map record_owner (filter (\<lambda>data. record_amount data \<noteq> 0) accounts))"
    by auto
  have z: "value_of [] w = 0" for w by (simp add: value_of_def)
  from * show "distinct (map fst holdersMap)" by blast
  from * show "\<forall>x \<in> set holdersMap. 0 < snd x" by blast
  from * z show "\<forall>w. value_of holdersMap w = total_amount accounts w" by simp
  from * show "map fst holdersMap
           = first_seen (map record_owner (filter (\<lambda>data. record_amount data \<noteq> 0) accounts))"
    by blast
qed

lemma holders_loop_entry:
  assumes "holders_loop [] accounts = Inr holdersMap" "(w, b) \<in> set holdersMap"
  shows "b = total_amount accounts w" "0 < b"
proof -
  from holders_loop_result(1) [OF assms(1)] assms(2) have "map_of holdersMap w = Some b"
    by simp
  then have "value_of holdersMap w = b" by (simp add: value_of_def)
  with holders_loop_result(3) [OF assms(1)] show "b = total_amount accounts w" by simp
  from holders_loop_result(2) [OF assms(1)] assms(2) show "0 < b" by fastforce
qed

lemma wallets_holders_of: "map walletAddress (holders_of m) = map fst m"
  by (induction m) (auto simp: holders_of_def)

lemma in_holders_of:
  "h \<in> set (holders_of m) \<Longrightarrow> \<exists>b. (walletAddress h, b) \<in> set m \<and> balance h = bigint_to_number b"
  by (auto simp: holders_of_def)

lemma compute_rooms_165:
  assumes "\<forall>data \<in> set accounts. length data = 165"
  shows "\<exists>rooms. compute_rooms db accounts = Inr rooms"
  using aggregate_165 [OF assms] by (auto simp: compute_rooms_def)

section \<open>The handlers\<close>

lemma rooms_of_simps:
  "rooms_of (Rooms rooms cached) = rooms"
  "rooms_of (NameSaved w n) = []"
  "rooms_of (Error status msg) = []"
  by (simp_all add: rooms_of_def)

lemma rooms_of_catch: "rooms_of (rooms_catch errStr) = []"
  by (simp add: rooms_catch_def rooms_of_simps)

lemma rooms_begin_size:
  assumes "\<forall>rooms. roomsCache s = Some rooms \<longrightarrow> length rooms \<le> MAX_ROOMS"
    and "rooms_begin lib s q now = Responded r"
  shows "length (rooms_of r) \<le> MAX_ROOMS"
  using assms
  by (auto simp: rooms_begin_def Let_def rooms_of_catch rooms_of_simps
           split: sum.splits if_splits option.splits)

lemma rooms_resume_size:
  assumes "\<forall>rooms. roomsCache s = Some rooms \<longrightarrow> length rooms \<le> MAX_ROOMS"
    and "rooms_resume s m t fetched = (r, s')"
  shows "length (rooms_of r) \<le> MAX_ROOMS
       \<and> (\<forall>rooms. roomsCache s' = Some rooms \<longrightarrow> length rooms \<le> MAX_ROOMS)"
  using assms
  by (auto simp: rooms_resume_def rooms_of_catch rooms_of_simps length_compute_rooms
           split: sum.splits)

lemma cache_hit_iff:
  "cache_hit s m now \<longleftrightarrow>
     (\<exists>rooms. roomsCache s = Some rooms) \<and> roomsCacheMint s = Some m
     \<and> now - roomsCacheUpdatedAt s < 30000"
  by (auto simp: cache_hit_def CACHE_TTL_MS_def)

lemma display_name_try_missing:
  assumes "\<not> truthy (body_walletAddress b) \<or> \<not> truthy (body_displayName b)
           \<or> \<not> truthy (body_message b) \<or> body_signature b = None"
  shows "display_name_try lib s b now = Inr (Error 400 (js ''Missing fields''), s)"
proof (cases "body_walletAddress b")
  case None
  then show ?thesis by (simp add: display_name_try_def)
next
  case w: (Some wallet)
  show ?thesis
  proof (cases "body_displayName b")
    case None
    with w show ?thesis by (simp add: display_name_try_def)
  next
    case n: (Some name)
    show ?thesis
    proof (cases "body_message b")
      case None
      with w n show ?thesis by (simp add: display_name_try_def)
    next
      case m: (Some message)
      show ?thesis
      proof (cases "body_signature b")
        case None
        with w n m show ?thesis by (simp add: display_name_try_def)
      next
        case (Some signature)
        with assms w n m have "wallet = [] \<or> name = [] \<or> message = []"
          by (simp add: truthy_def)
        with w n m Some show ?thesis by (simp add: display_name_try_def)
      qed
    qed
  qed
qed

lemma display_name_try_present:
  assumes "body_walletAddress b = Some wallet" "body_displayName b = Some name"
    "body_message b = Some message" "body_signature b = Some signature"
    "wallet \<noteq> []" "name \<noteq> []" "message \<noteq> []"
  shows "display_name_try lib s b now =
          (if \<not> startsWith message (js ''RENTFREE_NAME_UPDATE_V1:'')
           then Inr (Error 400 (js ''Invalid message prefix''), s)
           else if length name < 1 \<or> length name > 24
           then Inr (Error 400 (js ''Invalid name length''), s)
           else
            (case PublicKey lib wallet of
               Inl err \<Rightarrow> Inl err
             | Inr pubkey \<Rightarrow>
                 (case nacl_verify lib (TextEncoder_encode lib message)
                         (map word_of_int signature) pubkey of
                    Inl err \<Rightarrow> Inl err
                  | Inr isValid \<Rightarrow>
                      if \<not> isValid
                      then Inr (Error 401 (js ''Signature verification failed''), s)
                      else Inr (NameSaved wallet name,
                                s\<lparr>display_names :=
                                    (display_names s)(wallet \<mapsto> (name, now))\<rparr>))))"
  using assms by (simp add: display_name_try_def)

lemma body_cases:
  obtains (missing) "\<not> truthy (body_walletAddress b) \<or> \<not> truthy (body_displayName b)
           \<or> \<not> truthy (body_message b) \<or> body_signature b = None"
  | (present) wallet name message signature where
      "body_walletAddress b = Some wallet" "body_displayName b = Some name"
      "body_message b = Some message" "body_signature b = Some signature"
      "wallet \<noteq> []" "name \<noteq> []" "message \<noteq> []"
  by (cases "body_walletAddress b"; cases "body_displayName b"; cases "body_message b";
      cases "body_signature b") (auto simp: truthy_def)

lemma post_display_name_cache:
  assumes "post_display_name lib s b now = (r, s')"
  shows "rooms_of r = [] \<and> roomsCache s' = roomsCache s
       \<and> roomsCacheMint s' = roomsCacheMint s \<and> roomsCacheUpdatedAt s' = roomsCacheUpdatedAt s"
proof (cases b rule: body_cases)
  case missing
  with assms show ?thesis
    by (auto simp: post_display_name_def display_name_try_missing rooms_of_simps)
next
  case (present wallet name message signature)
  from assms show ?thesis
    unfolding post_display_name_def display_name_try_present [OF present]
    by (auto simp: rooms_of_simps split: sum.splits if_splits)
qed

lemma step_GetRooms_inv:
  assumes inv: "size_inv sys"
  shows "size_inv (step lib sys (GetRooms q now))"
proof (cases "rooms_begin lib (srv sys) q now")
  case (Responded r)
  have c: "\<forall>rooms. roomsCache (srv sys) = Some rooms \<longrightarrow> length rooms \<le> MAX_ROOMS"
    using inv by (simp add: size_inv_def)
  have "length (rooms_of r) \<le> MAX_ROOMS"
    using c Responded by (rule rooms_begin_size)
  moreover have "step lib sys (GetRooms q now) = sys\<lparr>responses := responses sys @ [r]\<rparr>"
    using Responded by simp
  ultimately show ?thesis
    using inv by (auto simp: size_inv_def)
next
  case (Awaiting m t)
  then have "step lib sys (GetRooms q now)
     = sys\<lparr>suspended := suspended sys @ [(m, t)], fetches := fetches sys @ [m]\<rparr>"
    by simp
  then show ?thesis
    using inv by (auto simp: size_inv_def)
qed

lemma step_FetchSettled_inv:
  assumes inv: "size_inv sys"
  shows "size_inv (step lib sys (FetchSettled k fetched))"
proof (cases "k < length (suspended sys)")
  case True
  obtain m t where mt: "suspended sys ! k = (m, t)" by (cases "suspended sys ! k")
  obtain r s' where rs: "rooms_resume (srv sys) m t fetched = (r, s')"
    by (cases "rooms_resume (srv sys) m t fetched")
  have c: "\<forall>rooms. roomsCache (srv sys) = Some rooms \<longrightarrow> length rooms \<le> MAX_ROOMS"
    using inv by (simp add: size_inv_def)
  from rooms_resume_size [OF c rs]
  have *: "length (rooms_of r) \<le> MAX_ROOMS"
     "\<forall>rooms. roomsCache s' = Some rooms \<longrightarrow> length rooms \<le> MAX_ROOMS"
    by blast+
  have "step lib sys (FetchSettled k fetched)
     = sys\<lparr>srv := s',
           suspended := take k (suspended sys) @ drop (Suc k) (suspended sys),
           responses := responses sys @ [r]\<rparr>"
    using True mt rs by simp
  then show ?thesis
    using inv * by (auto simp: size_inv_def)
next
  case False
  with inv show ?thesis by simp
qed

lemma step_PostDisplayName_inv:
  assumes inv: "size_inv sys"
  shows "size_inv (step lib sys (PostDisplayName b now))"
proof -
  obtain r s' where rs: "post_display_name lib (srv sys) b now = (r, s')"
    by (cases "post_display_name lib (srv sys) b now")
  have "step lib sys (PostDisplayName b now) = sys\<lparr>srv := s', responses := responses sys @ [r]\<rparr>"
    using rs by simp
  then show ?thesis
    using inv post_display_name_cache [OF rs] by (auto simp: size_inv_def)
qed

lemma step_size_inv: "size_inv sys \<Longrightarrow> size_inv (step lib sys ev)"
  by (cases ev) (simp_all only: step_GetRooms_inv step_FetchSettled_inv step_PostDisplayName_inv)

lemma run_size_inv: "size_inv sys \<Longrightarrow> size_inv (run lib sys evs)"
  unfolding run_def
  by (induction evs arbitrary: sys) (simp_all add: step_size_inv del: step.simps)

lemma start_size_inv: "size_inv (start db)"
  by (simp add: size_inv_def start_def)

lemma step_GetRooms_Awaiting:
  "rooms_begin lib (srv sys) q now = Awaiting m t \<Longrightarrow>
     step lib sys (GetRooms q now)
       = sys\<lparr>suspended := suspended sys @ [(m, t)], fetches := fetches sys @ [m]\<rparr>"
  by simp

section \<open>The example data\<close>

lemma length_token_account:
  "length owner = 32 \<Longrightarrow> length amount = 8 \<Longrightarrow> length (token_account owner amount) = 165"
  by (simp add: token_account_def)

lemma owner_token_account:
  "length owner = 32 \<Longrightarrow> slice 32 64 (token_account owner amount) = owner"
  by (simp add: token_account_def slice_def)

lemma amount_token_account:
  "length owner = 32 \<Longrightarrow> length amount = 8 \<Longrightarrow> slice 64 72 (token_account owner amount) = amount"
  by (simp add: token_account_def slice_def)

lemma be_value_zeros: "foldl (\<lambda>acc b. acc * 256 + unat b) 0 (replicate n (0::byte)) = 0"
  by (induction n) simp_all

lemma toBase58_key:
  assumes "k \<noteq> 0" "unat k < 58"
  shows "toBase58 (key k) = js (replicate 31 CHR ''1'' @ [ALPHABET ! unat k])"
proof -
  have "takeWhile (\<lambda>b. b = 0) (replicate n 0 @ [k]) = replicate n 0" for n
    using assms(1) by (induction n) simp_all
  then have t: "takeWhile (\<lambda>b. b = 0) (replicate 31 0 @ [k]) = replicate 31 0" .
  have v: "be_value (replicate 31 0 @ [k]) = unat k"
    by (simp add: be_value_def be_value_zeros)
  have "unat k \<noteq> 0" using assms(1) by (simp add: unat_eq_0)
  then have d: "base58_digits (unat k) = [unat k]"
    using assms(2) by (simp add: base58_digits.simps)
  show ?thesis
    by (simp add: toBase58_def key_def t v d)
qed

lemma length_key: "length (key k) = 32"
  by (simp add: key_def)

lemma replicate_numeral: "replicate (numeral k) x = x # replicate (pred_numeral k) x"
  by (simp add: numeral_eq_Suc)

lemma key_1: "toBase58 (key 1) = W1"
  by (simp add: toBase58_key ALPHABET_def js_def replicate_numeral W1_def)

lemma key_2: "toBase58 (key 2) = W2"
  by (simp add: toBase58_key ALPHABET_def js_def replicate_numeral W2_def)

lemma key_9: "toBase58 (key 9) = MINT"
  by (simp add: toBase58_key ALPHABET_def js_def replicate_numeral MINT_def)

lemma W1_neq_W2: "W1 \<noteq> W2" "W2 \<noteq> W1"
  by (simp_all add: W1_def W2_def js_def)

lemma record_owner_token_account:
  "record_owner (token_account (key k) amount) = toBase58 (key k)"
  by (simp add: record_owner_def owner_token_account length_key)

lemma record_amount_token_account:
  "length amount = 8 \<Longrightarrow> record_amount (token_account (key k) amount) = le_u64 amount"
  by (simp add: record_amount_def amount_token_account length_key)

lemma length_token_account_key:
  "length amount = 8 \<Longrightarrow> length (token_account (key k) amount) = 165"
  by (simp add: length_token_account length_key)

lemma holders_loop_token_account:
  assumes "length amount = 8"
  shows "holders_loop m (token_account (key k) amount # accounts) =
           (if le_u64 amount = 0 then holders_loop m accounts
            else holders_loop (Map_set m (toBase58 (key k))
                                 (value_of m (toBase58 (key k)) + le_u64 amount)) accounts)"
  using assms
  by (simp add: holders_loop_step length_token_account_key record_owner_token_account
        record_amount_token_account del: holders_loop.simps)

lemma le_u64_bytes:
  "le_u64 [b0, b1, b2, b3, b4, b5, b6, b7] =
     unat b0 + unat b1 * 256 + unat b2 * 256 ^ 2 + unat b3 * 256 ^ 3 + unat b4 * 256 ^ 4
     + unat b5 * 256 ^ 5 + unat b6 * 256 ^ 6 + unat b7 * 256 ^ 7"
  by (simp add: le_u64_def upt_rec)

lemma room_W1: "hashToRoom W1 MAX_ROOMS = 66"
  by (simp add: hashToRoom_def js_def MAX_ROOMS_def W1_def)

lemma room_W2: "hashToRoom W2 MAX_ROOMS = 67"
  by (simp add: hashToRoom_def js_def MAX_ROOMS_def W2_def)

lemma decimal_800: "decimal 800 = ''800''"
  by (simp add: decimal_def decimal_digits.simps digit_char_def)

lemma decimal_5: "decimal 5 = ''5''"
  by (simp add: decimal_def decimal_digits.simps digit_char_def)

lemma lengths_example: "map length example_accounts = [165, 165, 165]"
  by (simp add: example_accounts_def length_token_account_key)

lemma example_holders: "holders_loop [] example_accounts = Inr [(W1, 800)]"
  by (simp add: example_accounts_def holders_loop_token_account le_u64_bytes key_1 key_2
        value_of_def W1_neq_W2 del: holders_loop.simps(2))

lemma total_example_W1: "total_amount example_accounts W1 = 800"
  by (simp add: example_accounts_def total_amount_def record_owner_token_account
        record_amount_token_account key_1 key_2 le_u64_bytes W1_neq_W2)

lemma total_example_W2: "total_amount example_accounts W2 = 0"
  by (simp add: example_accounts_def total_amount_def record_owner_token_account
        record_amount_token_account key_1 key_2 le_u64_bytes W1_neq_W2)

lemma example_rooms:
  "compute_rooms (\<lambda>w. None) example_accounts
   = Inr [\<lparr>room_walletAddress = W1, roomNumber = 66, role = Landlord,
           room_balance = js ''800'', displayName = None\<rparr>]"
  by (simp add: rooms_of_holders [OF example_holders] holders_of_def array_sort_def
        withRooms_def LANDLORD_TOP_N_def MAX_ROOMS_def balance_string_exact decimal_800
        room_W1 [unfolded MAX_ROOMS_def])

lemma tie_holders: "holders_loop [] tie_accounts = Inr [(W2, 5), (W1, 5)]"
  by (simp add: tie_accounts_def holders_loop_token_account le_u64_bytes key_1 key_2
        value_of_def W1_neq_W2 del: holders_loop.simps(2))

lemma tie_ranking:
  "top_holders (holders_of [(W2, 5), (W1, 5)])
     = [\<lparr>walletAddress = W2, balance = 5\<rparr>, \<lparr>walletAddress = W1, balance = 5\<rparr>]"
  by (simp add: top_holders_def holders_of_def array_sort_def compare_desc_def MAX_ROOMS_def
        bigint_to_number_exact numeral_eq_enat)

lemma tie_rooms:
  "compute_rooms (\<lambda>w. None) tie_accounts
   = Inr [\<lparr>room_walletAddress = W2, roomNumber = 67, role = Landlord,
           room_balance = js ''5'', displayName = None\<rparr>,
          \<lparr>room_walletAddress = W1, roomNumber = 66, role = Landlord,
           room_balance = js ''5'', displayName = None\<rparr>]"
proof -
  have "number_to_string 5 = js ''5''"
    using balance_string_exact [of 5]
    by (simp add: bigint_to_number_exact decimal_5 numeral_eq_enat)
  then show ?thesis
    by (simp add: compute_rooms_def tie_holders tie_ranking withRooms_def LANDLORD_TOP_N_def
          room_W1 room_W2)
qed

lemma big_holders: "holders_loop [] big_accounts = Inr [(W1, 9007199254740993)]"
  by (simp add: big_accounts_def holders_loop_token_account le_u64_bytes key_1 value_of_def
        del: holders_loop.simps(2))

lemma total_big_W1: "total_amount big_accounts W1 = 9007199254740993"
  by (simp add: big_accounts_def total_amount_def record_owner_token_account
        record_amount_token_account key_1 le_u64_bytes)

lemma big_rooms:
  "compute_rooms (\<lambda>w. None) big_accounts
   = Inr [\<lparr>room_walletAddress = W1, roomNumber = 66, role = Landlord,
           room_balance = js ''9007199254740992'', displayName = None\<rparr>]"
proof -
  have "bigint_to_number 9007199254740993 = enat 9007199254740992"
    by (simp add: bigint_to_number_54)
  then have "number_to_string (bigint_to_number 9007199254740993) = js ''9007199254740992''"
    by (simp only: number_to_string_2_53 decimal_2_53)
  then show ?thesis
    by (simp add: rooms_of_holders [OF big_holders] holders_of_def array_sort_def
          withRooms_def LANDLORD_TOP_N_def MAX_ROOMS_def room_W1 [unfolded MAX_ROOMS_def])
qed

lemma begin_miss_on_start:
  "rooms_begin example_lib (srv (start db)) None now = Awaiting MINT now"
  by (simp add: rooms_begin_def request_mint_def example_lib_def start_def cache_hit_def key_9)

lemma eleven_holders: "holders_loop [] eleven_accounts = Inr eleven_holdersMap"
  by (simp add: eleven_accounts_def eleven_holdersMap_def upt_rec holders_loop_token_account
        le_u64_bytes value_of_def toBase58_key ALPHABET_def js_def
        del: holders_loop.simps(2))

lemma eleven_ranking:
  "map balance (top_holders (holders_of eleven_holdersMap))
     = [11, 10, 9, 8, 7, 6, 5, 4, 3, 2, 1]"
  by (simp add: eleven_holdersMap_def upt_rec top_holders_def holders_of_def array_sort_def
        compare_desc_def MAX_ROOMS_def bigint_to_number_exact numeral_eq_enat one_enat_def)

lemma example_run:
  "run example_lib (start (\<lambda>w. None))
     [GetRooms None 0, FetchSettled 0 (Inr example_accounts), GetRooms None 1000]
   = \<lparr>srv = \<lparr>roomsCache = Some [\<lparr>room_walletAddress = W1, roomNumber = 66, role = Landlord,
                                   room_balance = js ''800'', displayName = None\<rparr>],
             roomsCacheMint = Some MINT, roomsCacheUpdatedAt = 0,
             display_names = (\<lambda>w. None)\<rparr>,
      suspended = [], fetches = [MINT],
      responses = [Rooms [\<lparr>room_walletAddress = W1, roomNumber = 66, role = Landlord,
                           room_balance = js ''800'', displayName = None\<rparr>] False,
                   Rooms [\<lparr>room_walletAddress = W1, roomNumber = 66, role = Landlord,
                           room_balance = js ''800'', displayName = None\<rparr>] True]\<rparr>"
  by (simp add: run_def start_def rooms_begin_def request_mint_def example_lib_def key_9
        cache_hit_def CACHE_TTL_MS_def rooms_resume_def example_rooms)


lemma key_11: "toBase58 (key 11) = W11"
  by (simp add: toBase58_key ALPHABET_def js_def replicate_numeral W11_def)

lemma level_holders: "holders_loop [] level_accounts = Inr level_holdersMap"
  by (simp add: level_accounts_def level_holdersMap_def holders_loop_token_account
        le_u64_bytes value_of_def toBase58_key ALPHABET_def js_def
        del: holders_loop.simps(2))

lemma level_ranking:
  "top_holders (holders_of level_holdersMap)
     = map (\<lambda>k. \<lparr>walletAddress = toBase58 (key k), balance = 5\<rparr>)
         [11, 10, 9, 8, 7, 6, 5, 4, 3, 2, 1]"
  by (simp add: level_holdersMap_def top_holders_def holders_of_def array_sort_def
        compare_desc_def MAX_ROOMS_def bigint_to_number_exact numeral_eq_enat)

lemma W1_before_W11: "lex_le W1 W11" "\<not> lex_le W11 W1"
  by (simp_all add: W1_def W11_def js_def)

section \<open>Properties\<close>

subsection \<open>C1: the order of the entry list\<close>

text \<open>
  C1 as stated does not hold of the handler: there is no tie-break by wallet address.
  For \<open>tie_accounts\<close> (\<open>W2\<close> and \<open>W1\<close> with amount 5 each, \<open>W2\<close> listed first) the entry
  list is \<open>W2\<close>, \<open>W1\<close>, both with balance \<open>"5"\<close>, although \<open>W1\<close> precedes \<open>W2\<close>
  lexicographically: the ranking is not the one with the tie-break.
\<close>

theorem ranking_without_tie_break:
  "holders_loop [] tie_accounts = Inr [(W2, 5), (W1, 5)]
   \<and> compute_rooms (\<lambda>w. None) tie_accounts
       = Inr [\<lparr>room_walletAddress = W2, roomNumber = 67, role = Landlord,
               room_balance = js ''5'', displayName = None\<rparr>,
              \<lparr>room_walletAddress = W1, roomNumber = 66, role = Landlord,
               room_balance = js ''5'', displayName = None\<rparr>]
   \<and> lex_le W1 W2 \<and> \<not> lex_le W2 W1
   \<and> \<not> ranked_with_tie_break (top_holders (holders_of [(W2, 5), (W1, 5)]))"
proof -
  have "lex_le W1 W2" "\<not> lex_le W2 W1"
    by (simp_all add: W1_def W2_def js_def)
  then show ?thesis
    by (simp add: tie_holders tie_rooms tie_ranking ranked_with_tie_break_def)
qed

text \<open>
  C1 (amended). For every account list on which the aggregation succeeds, the entries
  are those of the first \<open>MAX_ROOMS\<close> holders of the list \<open>ranked\<close>, in that order;
  \<open>ranked\<close> is sorted by balance descending, the balance being the Number the
  aggregate was converted to; holders with equal balance stand in \<open>ranked\<close> in the order
  of the map, which is the order in which their wallets first occur with a non-zero
  amount in the account list. So the order is a deterministic function of the account
  list, with no reference to the wallet address.
\<close>

theorem ranking_stable_by_balance:
  assumes "holders_loop [] accounts = Inr holdersMap"
    and "ranked = array_sort compare_desc (holders_of holdersMap)"
    and "rooms = withRooms db (take MAX_ROOMS ranked)"
  shows "compute_rooms db accounts = Inr rooms
       \<and> map room_walletAddress rooms = map walletAddress (take MAX_ROOMS ranked)
       \<and> sorted_wrt (\<lambda>a b. balance b \<le> balance a) ranked
       \<and> (\<forall>v. filter (\<lambda>h. balance h = v) ranked
                = filter (\<lambda>h. balance h = v) (holders_of holdersMap))
       \<and> map walletAddress (holders_of holdersMap)
           = first_seen (map record_owner (filter (\<lambda>data. record_amount data \<noteq> 0) accounts))
       \<and> (\<forall>h \<in> set (holders_of holdersMap).
             balance h = bigint_to_number (total_amount accounts (walletAddress h)))"
proof -
  have 1: "compute_rooms db accounts = Inr rooms"
    using assms by (simp add: rooms_of_holders)
  have 2: "map room_walletAddress rooms = map walletAddress (take MAX_ROOMS ranked)"
    by (simp add: assms(3) wallets_withRooms)
  have 3: "sorted_wrt (\<lambda>a b. balance b \<le> balance a) ranked"
    by (simp add: assms(2) sorted_array_sort)
  have 4: "\<forall>v. filter (\<lambda>h. balance h = v) ranked
                = filter (\<lambda>h. balance h = v) (holders_of holdersMap)"
    by (simp add: assms(2) array_sort_stable)
  have 5: "map walletAddress (holders_of holdersMap)
           = first_seen (map record_owner (filter (\<lambda>data. record_amount data \<noteq> 0) accounts))"
    using holders_loop_result(4) [OF assms(1)] by (simp add: wallets_holders_of)
  have 6: "\<forall>h \<in> set (holders_of holdersMap).
             balance h = bigint_to_number (total_amount accounts (walletAddress h))"
    using in_holders_of holders_loop_entry(1) [OF assms(1)] by fastforce
  from 1 2 3 4 5 6 show ?thesis by blast
qed

theorem ranking_stable_by_balance_witness:
  "holders_loop [] tie_accounts = Inr [(W2, 5), (W1, 5)]
   \<and> compute_rooms (\<lambda>w. None) tie_accounts
       = Inr (withRooms (\<lambda>w. None)
                (take MAX_ROOMS (array_sort compare_desc (holders_of [(W2, 5), (W1, 5)]))))
   \<and> first_seen (map record_owner (filter (\<lambda>data. record_amount data \<noteq> 0) tie_accounts))
       = [W2, W1]"
  using ranking_stable_by_balance [OF tie_holders refl refl, of "\<lambda>w. None"] tie_holders
  by (simp add: wallets_holders_of)

subsection \<open>C2: exactness of the balance text\<close>

text \<open>
  C2 as stated does not hold of the handler: the aggregate is converted with
  \<open>Number(balance)\<close> before the sort, and the text is that of the double. For
  \<open>big_accounts\<close> (one record of \<open>W1\<close> with amount \<open>2^53 + 1\<close>) the emitted balance is
  \<open>"9007199254740992"\<close>, not the decimal representation of the sum.
\<close>

theorem balance_text_rounded:
  "compute_rooms (\<lambda>w. None) big_accounts
     = Inr [\<lparr>room_walletAddress = W1, roomNumber = 66, role = Landlord,
             room_balance = js ''9007199254740992'', displayName = None\<rparr>]
   \<and> total_amount big_accounts W1 = 9007199254740993
   \<and> js ''9007199254740992'' \<noteq> js (decimal (total_amount big_accounts W1))"
proof -
  have "decimal 9007199254740993 = ''9007199254740993''"
    by (simp add: decimal_def decimal_digits.simps digit_char_def)
  then show ?thesis
    by (simp add: big_rooms total_big_W1 js_def)
qed

text \<open>
  C2 (amended). The amounts are summed exactly, as BigInt; the sum is converted to a
  Number before sorting, and the balance text of an entry is the text of that Number.
  For every entry whose wallet has an aggregate balance of at most \<open>2^53\<close>, the balance
  text is the exact decimal representation of the sum of the amounts of the wallet's
  records.
\<close>

theorem balance_text_exact_up_to_2_53:
  assumes "compute_rooms db accounts = Inr rooms" and "e \<in> set rooms"
  shows "room_balance e
           = number_to_string (bigint_to_number (total_amount accounts (room_walletAddress e)))
       \<and> (total_amount accounts (room_walletAddress e) \<le> 2 ^ 53 \<longrightarrow>
            room_balance e = js (decimal (total_amount accounts (room_walletAddress e))))"
proof -
  from compute_rooms_InrD [OF assms(1)] obtain m where
    m: "holders_loop [] accounts = Inr m" and r: "rooms = withRooms db (top_holders (holders_of m))"
    by blast
  from in_withRooms assms(2) r obtain h where
    h: "h \<in> set (top_holders (holders_of m))" "room_walletAddress e = walletAddress h"
       "room_balance e = number_to_string (balance h)"
    by blast
  from h(1) set_top_holders have "h \<in> set (holders_of m)" by blast
  then obtain b where b: "(walletAddress h, b) \<in> set m" "balance h = bigint_to_number b"
    using in_holders_of by blast
  from holders_loop_entry(1) [OF m b(1)] have t: "b = total_amount accounts (walletAddress h)" .
  with h b have 1: "room_balance e
           = number_to_string (bigint_to_number (total_amount accounts (room_walletAddress e)))"
    by simp
  have "room_balance e = js (decimal (total_amount accounts (room_walletAddress e)))"
    if "total_amount accounts (room_walletAddress e) \<le> 2 ^ 53"
    using 1 balance_string_exact [OF that] by simp
  with 1 show ?thesis by blast
qed

theorem balance_text_exact_up_to_2_53_witness:
  "compute_rooms (\<lambda>w. None) example_accounts
     = Inr [\<lparr>room_walletAddress = W1, roomNumber = 66, role = Landlord,
             room_balance = js ''800'', displayName = None\<rparr>]
   \<and> total_amount example_accounts W1 = 800 \<and> (800 :: nat) \<le> 2 ^ 53
   \<and> js ''800'' = js (decimal (total_amount example_accounts W1))"
  using balance_text_exact_up_to_2_53 [OF example_rooms,
      of "\<lparr>room_walletAddress = W1, roomNumber = 66, role = Landlord,
           room_balance = js ''800'', displayName = None\<rparr>"]
  by (simp add: example_rooms total_example_W1 decimal_800)

subsection \<open>C3: aggregation\<close>

text \<open>
  C3. For every list of 165-byte records the aggregation succeeds, and the map has
  exactly one entry per owner wallet with a non-zero aggregate: the keys are distinct,
  and a wallet is mapped to the sum of the little-endian 64-bit amounts (bytes 64 to
  71) of the records whose owner (bytes 32 to 63) it is, unless that sum is zero, in
  which case the wallet is absent.
\<close>

theorem aggregation_sums_per_owner:
  assumes "\<forall>data \<in> set accounts. length data = 165"
  shows "\<exists>holdersMap. holders_loop [] accounts = Inr holdersMap
           \<and> distinct (map fst holdersMap)
           \<and> (\<forall>w. Map_get holdersMap w
                    = (if total_amount accounts w = 0 then None
                       else Some (total_amount accounts w)))"
proof -
  from aggregate_165 [OF assms] obtain m where m:
    "holders_loop [] accounts = Inr m" "distinct (map fst m)"
    "\<forall>x \<in> set m. 0 < snd x" "\<forall>w. value_of m w = total_amount accounts w"
    by blast
  have "Map_get m w = (if total_amount accounts w = 0 then None else Some (total_amount accounts w))" for w
    using map_of_positive [OF m(2) m(3), of w] m(4) by (simp add: Map_get_def)
  with m(1) m(2) show ?thesis by blast
qed

theorem aggregation_sums_per_owner_witness:
  "map length example_accounts = [165, 165, 165]
   \<and> holders_loop [] example_accounts = Inr [(W1, 800)]
   \<and> Map_get [(W1, 800)] W1 = Some 800 \<and> Map_get [(W1, 800)] W2 = None"
proof -
  have "\<forall>data \<in> set example_accounts. length data = 165"
    by (simp add: example_accounts_def length_token_account_key)
  from aggregation_sums_per_owner [OF this] obtain holdersMap where
    h: "holders_loop [] example_accounts = Inr holdersMap"
       "\<forall>w. Map_get holdersMap w
                    = (if total_amount example_accounts w = 0 then None
                       else Some (total_amount example_accounts w))"
    by blast
  from h(1) have m: "holdersMap = [(W1, 800)]"
    by (simp only: example_holders sum.inject)
  from h(2) have "Map_get holdersMap W1 = Some 800"
    by (simp add: total_example_W1)
  moreover from h(2) have "Map_get holdersMap W2 = None"
    by (simp add: total_example_W2)
  ultimately show ?thesis
    using m lengths_example example_holders by simp
qed

subsection \<open>C4: the room number\<close>

text \<open>
  C4. For every wallet string \<open>W\<close> and every room count \<open>M > 0\<close>, \<open>hashToRoom W M\<close> lies
  between 1 and \<open>M\<close>. It is a function of the wallet and the room count and of nothing
  else, so equal arguments give equal rooms; and in every entry list the handler
  computes, the room number of an entry is \<open>hashToRoom\<close> of its wallet address at
  \<open>MAX_ROOMS\<close>, whatever the accounts, the balances, the ranks and the names are, and lies
  between 1 and \<open>MAX_ROOMS\<close>.
\<close>

theorem room_number_of_wallet:
  "(0 < M \<longrightarrow> 1 \<le> hashToRoom W M \<and> hashToRoom W M \<le> M)
   \<and> (compute_rooms db accounts = Inr rooms \<and> e \<in> set rooms \<longrightarrow>
        roomNumber e = hashToRoom (room_walletAddress e) MAX_ROOMS
        \<and> 1 \<le> roomNumber e \<and> roomNumber e \<le> MAX_ROOMS)"
proof -
  have bound: "1 \<le> hashToRoom w k \<and> hashToRoom w k \<le> k" if "0 < k" for w k
    using that by (simp add: hashToRoom_def Let_def Suc_le_eq)
  have "roomNumber e = hashToRoom (room_walletAddress e) MAX_ROOMS"
    if "compute_rooms db accounts = Inr rooms" "e \<in> set rooms"
    using compute_rooms_InrD [OF that(1)] in_withRooms that(2) by fastforce
  moreover have "0 < MAX_ROOMS" by (simp add: MAX_ROOMS_def)
  ultimately show ?thesis
    using bound [of M W] bound [of MAX_ROOMS "room_walletAddress e"] by auto
qed

theorem room_number_of_wallet_witness:
  "(0 :: nat) < 80 \<and> 1 \<le> hashToRoom W1 80 \<and> hashToRoom W1 80 \<le> 80
   \<and> compute_rooms (\<lambda>w. None) example_accounts
       = Inr [\<lparr>room_walletAddress = W1, roomNumber = 66, role = Landlord,
               room_balance = js ''800'', displayName = None\<rparr>]
   \<and> hashToRoom W1 MAX_ROOMS = 66"
  using room_number_of_wallet [of 80 W1 "\<lambda>w. None" example_accounts
      "[\<lparr>room_walletAddress = W1, roomNumber = 66, role = Landlord,
         room_balance = js ''800'', displayName = None\<rparr>]"
      "\<lparr>room_walletAddress = W1, roomNumber = 66, role = Landlord,
        room_balance = js ''800'', displayName = None\<rparr>"]
  by (simp add: example_rooms room_W1)

subsection \<open>C5: the roles\<close>

text \<open>
  C5 as stated does not hold of the handler: the roles follow the index in the ranked
  list, and the ranking has no tie-break by wallet address (see C1). For
  \<open>level_accounts\<close> (eleven holders with amount 5 each, listed from \<open>W11\<close> down to \<open>W1\<close>)
  the entry at index 0 is \<open>W11\<close> with role Landlord and the entry at index 10 is \<open>W1\<close>
  with role Tenant, both with balance \<open>"5"\<close>, although \<open>W1\<close> precedes \<open>W11\<close>
  lexicographically: a Tenant outranks a Landlord by the tie-break.
\<close>

theorem tenant_before_landlord_by_wallet:
  "compute_rooms (\<lambda>w. None) level_accounts
     = Inr (withRooms (\<lambda>w. None) (top_holders (holders_of level_holdersMap)))
   \<and> length (withRooms (\<lambda>w. None) (top_holders (holders_of level_holdersMap))) = 11
   \<and> withRooms (\<lambda>w. None) (top_holders (holders_of level_holdersMap)) ! 0
       = \<lparr>room_walletAddress = W11, roomNumber = hashToRoom W11 MAX_ROOMS, role = Landlord,
          room_balance = js ''5'', displayName = None\<rparr>
   \<and> withRooms (\<lambda>w. None) (top_holders (holders_of level_holdersMap)) ! 10
       = \<lparr>room_walletAddress = W1, roomNumber = hashToRoom W1 MAX_ROOMS, role = Tenant,
          room_balance = js ''5'', displayName = None\<rparr>
   \<and> lex_le W1 W11 \<and> \<not> lex_le W11 W1
   \<and> \<not> landlords_outrank_tenants (top_holders (holders_of level_holdersMap))
         (withRooms (\<lambda>w. None) (top_holders (holders_of level_holdersMap)))"
proof -
  let ?tops = "top_holders (holders_of level_holdersMap)"
  let ?rooms = "withRooms (\<lambda>w. None) ?tops"
  have len: "length ?tops = 11"
    by (simp add: level_ranking)
  have t0: "?tops ! 0 = \<lparr>walletAddress = W11, balance = 5\<rparr>"
    by (simp add: level_ranking key_11)
  have t10: "?tops ! 10 = \<lparr>walletAddress = W1, balance = 5\<rparr>"
    by (simp add: level_ranking key_1)
  have five: "number_to_string 5 = js ''5''"
    using balance_string_exact [of 5]
    by (simp add: bigint_to_number_exact decimal_5 numeral_eq_enat)
  have r0: "?rooms ! 0
       = \<lparr>room_walletAddress = W11, roomNumber = hashToRoom W11 MAX_ROOMS, role = Landlord,
          room_balance = js ''5'', displayName = None\<rparr>"
    using len by (simp add: nth_withRooms t0 five LANDLORD_TOP_N_def)
  have r10: "?rooms ! 10
       = \<lparr>room_walletAddress = W1, roomNumber = hashToRoom W1 MAX_ROOMS, role = Tenant,
          room_balance = js ''5'', displayName = None\<rparr>"
    using len by (simp add: nth_withRooms t10 five LANDLORD_TOP_N_def)
  have lr: "length ?rooms = 11"
    by (simp add: length_withRooms len)
  have "\<not> landlords_outrank_tenants ?tops ?rooms"
  proof
    assume "landlords_outrank_tenants ?tops ?rooms"
    then have "balance (?tops ! 10) < balance (?tops ! 0)
          \<or> (balance (?tops ! 0) = balance (?tops ! 10)
              \<and> lex_le (walletAddress (?tops ! 0)) (walletAddress (?tops ! 10)))"
      unfolding landlords_outrank_tenants_def using lr r0 r10 by simp
    then show False
      by (simp add: t0 t10 W1_before_W11)
  qed
  then show ?thesis
    using compute_rooms_Inr [OF level_holders, of "\<lambda>w. None"] lr r0 r10 W1_before_W11
    by simp
qed

text \<open>
  C5 (amended). For every account list on which the aggregation succeeds, with \<open>tops\<close>
  the ranked and truncated holders and \<open>rooms\<close> the entries built from them: the number
  of entries with role Landlord is the minimum of the entry count and
  \<open>LANDLORD_TOP_N\<close>; the entry at index \<open>i\<close> is Landlord when \<open>i < LANDLORD_TOP_N\<close> and
  Tenant otherwise, and carries the wallet and the balance of the holder at index \<open>i\<close>;
  and the balance of every Landlord is greater than or equal to the balance of every
  Tenant. The balance is the one the handler ranks by and prints, \<open>h.balance\<close>; among
  holders of equal balance nothing is said about the wallet addresses.
\<close>

theorem landlords_first:
  assumes "holders_loop [] accounts = Inr holdersMap"
    and "tops = top_holders (holders_of holdersMap)"
    and "rooms = withRooms db tops"
  shows "compute_rooms db accounts = Inr rooms
       \<and> length rooms = length tops
       \<and> length (filter (\<lambda>e. role e = Landlord) rooms) = min (length rooms) LANDLORD_TOP_N
       \<and> (\<forall>i < length rooms.
             role (rooms ! i) = (if i < LANDLORD_TOP_N then Landlord else Tenant)
             \<and> room_walletAddress (rooms ! i) = walletAddress (tops ! i)
             \<and> room_balance (rooms ! i) = number_to_string (balance (tops ! i)))
       \<and> (\<forall>i < length rooms. \<forall>j < length rooms.
             role (rooms ! i) = Landlord \<and> role (rooms ! j) = Tenant
             \<longrightarrow> balance (tops ! j) \<le> balance (tops ! i))"
proof -
  have len: "length rooms = length tops"
    by (simp add: assms(3) length_withRooms)
  have sorted: "sorted_wrt (\<lambda>a b. balance b \<le> balance a) tops"
    unfolding assms(2) by (rule sorted_top_holders)
  have ord: "balance (tops ! j) \<le> balance (tops ! i)"
    if "i < length rooms" "j < length rooms" "role (rooms ! i) = Landlord" "role (rooms ! j) = Tenant"
    for i j
  proof -
    have "i < LANDLORD_TOP_N"
      using that(1,3) len by (simp add: assms(3) nth_withRooms split: if_splits)
    moreover have "\<not> j < LANDLORD_TOP_N"
      using that(2,4) len by (simp add: assms(3) nth_withRooms split: if_splits)
    ultimately have "i < j" by simp
    moreover have "j < length tops" using that(2) len by simp
    ultimately show ?thesis
      using sorted_wrt_nth_less [OF sorted] by blast
  qed
  have 1: "compute_rooms db accounts = Inr rooms"
    using assms by (simp add: compute_rooms_Inr)
  have 3: "length (filter (\<lambda>e. role e = Landlord) rooms) = min (length rooms) LANDLORD_TOP_N"
    by (simp add: assms(3) count_landlords length_withRooms)
  have 4: "\<forall>i < length rooms.
             role (rooms ! i) = (if i < LANDLORD_TOP_N then Landlord else Tenant)
             \<and> room_walletAddress (rooms ! i) = walletAddress (tops ! i)
             \<and> room_balance (rooms ! i) = number_to_string (balance (tops ! i))"
    using len by (simp add: assms(3) nth_withRooms)
  from 1 len 3 4 ord show ?thesis by blast
qed

theorem landlords_first_witness:
  "holders_loop [] eleven_accounts = Inr eleven_holdersMap
   \<and> map balance (top_holders (holders_of eleven_holdersMap))
       = [11, 10, 9, 8, 7, 6, 5, 4, 3, 2, 1]
   \<and> map role (withRooms (\<lambda>w. None) (top_holders (holders_of eleven_holdersMap)))
       = [Landlord, Landlord, Landlord, Landlord, Landlord, Landlord, Landlord, Landlord,
          Landlord, Landlord, Tenant]
   \<and> length (filter (\<lambda>e. role e = Landlord)
                (withRooms (\<lambda>w. None) (top_holders (holders_of eleven_holdersMap))))
       = 10"
proof -
  let ?tops = "top_holders (holders_of eleven_holdersMap)"
  have len: "length ?tops = 11"
    using arg_cong [OF eleven_ranking, of length] by simp
  have "map role (withRooms (\<lambda>w. None) ?tops)
          = map (\<lambda>i. if i < LANDLORD_TOP_N then Landlord else Tenant) [0..<11]"
    by (simp only: roles_withRooms len)
  also have "\<dots> = [Landlord, Landlord, Landlord, Landlord, Landlord, Landlord, Landlord,
                    Landlord, Landlord, Landlord, Tenant]"
    by (simp add: upt_rec LANDLORD_TOP_N_def)
  finally have roles: "map role (withRooms (\<lambda>w. None) ?tops)
       = [Landlord, Landlord, Landlord, Landlord, Landlord, Landlord, Landlord, Landlord,
          Landlord, Landlord, Tenant]" .
  from landlords_first [OF eleven_holders refl refl, of "\<lambda>w. None"]
  have "length (filter (\<lambda>e. role e = Landlord) (withRooms (\<lambda>w. None) ?tops))
          = min (length (withRooms (\<lambda>w. None) ?tops)) LANDLORD_TOP_N"
    by blast
  then have "length (filter (\<lambda>e. role e = Landlord) (withRooms (\<lambda>w. None) ?tops)) = 10"
    by (simp add: length_withRooms len LANDLORD_TOP_N_def)
  with eleven_holders eleven_ranking roles show ?thesis by simp
qed

subsection \<open>C6: the size of a snapshot\<close>

text \<open>
  C6. Whatever requests arrive and however their parts interleave, every entry list the
  server sends has at most \<open>MAX_ROOMS\<close> entries, and so has the list it holds in the
  cache; and every entry list computed from an account list, of any size, has at most
  \<open>MAX_ROOMS\<close> entries.
\<close>

theorem snapshot_size_bounded:
  "(\<forall>r \<in> set (responses (run lib (start db) evs)). length (rooms_of r) \<le> MAX_ROOMS)
   \<and> (\<forall>rooms. roomsCache (srv (run lib (start db) evs)) = Some rooms
         \<longrightarrow> length rooms \<le> MAX_ROOMS)
   \<and> (\<forall>rooms. compute_rooms db accounts = Inr rooms \<longrightarrow> length rooms \<le> MAX_ROOMS)"
  using run_size_inv [OF start_size_inv, of lib db evs] length_compute_rooms [of db accounts]
  by (simp add: size_inv_def)

theorem snapshot_size_bounded_witness:
  "map (\<lambda>r. length (rooms_of r))
     (responses (run example_lib (start (\<lambda>w. None))
        [GetRooms None 0, FetchSettled 0 (Inr example_accounts), GetRooms None 1000]))
     = [1, 1]
   \<and> (1 :: nat) \<le> MAX_ROOMS"
  using snapshot_size_bounded [of example_lib "\<lambda>w. None"
      "[GetRooms None 0, FetchSettled 0 (Inr example_accounts), GetRooms None 1000]"
      example_accounts]
  by (simp add: example_run rooms_of_simps MAX_ROOMS_def)

subsection \<open>C7: the cache\<close>

text \<open>
  C7. For a request whose mint is a public key, with \<open>mintBase58\<close> its base58 text:
  the request is served from the cache exactly when a cached list exists, the cached
  mint equals \<open>mintBase58\<close>, and \<open>now - roomsCacheUpdatedAt < 30000\<close>; it then returns the
  cached list, flagged \<open>cached: true\<close>, and leaves the state as it is; no other request
  is answered with \<open>cached: true\<close>. Otherwise it runs
  the pipeline on the fetched accounts: when that yields an entry list (as it does for
  165-byte records) the list is returned flagged \<open>cached: false\<close>, and the one cache
  slot holds this list, \<open>mintBase58\<close> and \<open>now\<close>, whatever it held before; when the
  fetch or the pipeline throws, the error response is sent and the state is left as it
  is.
\<close>

theorem cache_hit_or_recompute:
  assumes "request_mint lib query_mint = Inr mint"
  shows "(cache_hit s (toBase58 mint) now \<longleftrightarrow>
            (\<exists>rooms. roomsCache s = Some rooms) \<and> roomsCacheMint s = Some (toBase58 mint)
            \<and> now - roomsCacheUpdatedAt s < 30000)
       \<and> (cache_hit s (toBase58 mint) now \<longrightarrow>
            (\<exists>rooms. roomsCache s = Some rooms
               \<and> get_rooms lib s query_mint now fetched = (Rooms rooms True, s)))
       \<and> (\<not> cache_hit s (toBase58 mint) now \<longrightarrow>
            (\<forall>accounts rooms.
               fetched = Inr accounts \<and> compute_rooms (display_names s) accounts = Inr rooms
               \<longrightarrow> get_rooms lib s query_mint now fetched =
                     (Rooms rooms False,
                      s\<lparr>roomsCache := Some rooms,
                        roomsCacheMint := Some (toBase58 mint),
                        roomsCacheUpdatedAt := now\<rparr>))
            \<and> (\<forall>accounts.
                  fetched = Inr accounts \<and> (\<forall>data \<in> set accounts. length data = 165)
                  \<longrightarrow> (\<exists>rooms. compute_rooms (display_names s) accounts = Inr rooms))
            \<and> (\<forall>errStr.
                  fetched = Inl errStr
                  \<or> (\<exists>accounts. fetched = Inr accounts
                        \<and> compute_rooms (display_names s) accounts = Inl errStr)
                  \<longrightarrow> get_rooms lib s query_mint now fetched = (rooms_catch errStr, s)))
       \<and> (\<forall>rooms s'.
             get_rooms lib s query_mint now fetched = (Rooms rooms True, s')
             \<longrightarrow> cache_hit s (toBase58 mint) now)"
proof (intro conjI impI allI)
  show "cache_hit s (toBase58 mint) now \<longleftrightarrow>
            (\<exists>rooms. roomsCache s = Some rooms) \<and> roomsCacheMint s = Some (toBase58 mint)
            \<and> now - roomsCacheUpdatedAt s < 30000"
    by (rule cache_hit_iff)
next
  assume hit: "cache_hit s (toBase58 mint) now"
  then obtain rooms where r: "roomsCache s = Some rooms"
    by (auto simp: cache_hit_iff)
  with hit assms have "get_rooms lib s query_mint now fetched = (Rooms rooms True, s)"
    by (simp add: get_rooms_def rooms_begin_def)
  with r show "\<exists>rooms. roomsCache s = Some rooms
               \<and> get_rooms lib s query_mint now fetched = (Rooms rooms True, s)"
    by blast
next
  fix accounts rooms
  assume "\<not> cache_hit s (toBase58 mint) now"
    and "fetched = Inr accounts \<and> compute_rooms (display_names s) accounts = Inr rooms"
  with assms show "get_rooms lib s query_mint now fetched =
                     (Rooms rooms False,
                      s\<lparr>roomsCache := Some rooms,
                        roomsCacheMint := Some (toBase58 mint),
                        roomsCacheUpdatedAt := now\<rparr>)"
    by (simp add: get_rooms_def rooms_begin_def rooms_resume_def)
next
  fix accounts
  assume "fetched = Inr accounts \<and> (\<forall>data \<in> set accounts. length data = 165)"
  then show "\<exists>rooms. compute_rooms (display_names s) accounts = Inr rooms"
    using compute_rooms_165 by blast
next
  fix errStr
  assume "\<not> cache_hit s (toBase58 mint) now"
    and "fetched = Inl errStr
         \<or> (\<exists>accounts. fetched = Inr accounts
               \<and> compute_rooms (display_names s) accounts = Inl errStr)"
  with assms show "get_rooms lib s query_mint now fetched = (rooms_catch errStr, s)"
    by (auto simp: get_rooms_def rooms_begin_def rooms_resume_def)
next
  fix rooms s'
  assume g: "get_rooms lib s query_mint now fetched = (Rooms rooms True, s')"
  show "cache_hit s (toBase58 mint) now"
  proof (rule ccontr)
    assume "\<not> cache_hit s (toBase58 mint) now"
    with assms g show False
      by (auto simp: get_rooms_def rooms_begin_def rooms_resume_def rooms_catch_def
               split: sum.splits if_splits)
  qed
qed

theorem cache_hit_or_recompute_witness:
  "request_mint example_lib None = Inr (key 9)
   \<and> get_rooms example_lib
        \<lparr>roomsCache = Some [], roomsCacheMint = Some MINT, roomsCacheUpdatedAt = 0,
         display_names = (\<lambda>w. None)\<rparr> None 29999 (Inr example_accounts)
       = (Rooms [] True,
          \<lparr>roomsCache = Some [], roomsCacheMint = Some MINT, roomsCacheUpdatedAt = 0,
           display_names = (\<lambda>w. None)\<rparr>)
   \<and> get_rooms example_lib
        \<lparr>roomsCache = Some [], roomsCacheMint = Some MINT, roomsCacheUpdatedAt = 0,
         display_names = (\<lambda>w. None)\<rparr> None 30000 (Inr example_accounts)
       = (Rooms [\<lparr>room_walletAddress = W1, roomNumber = 66, role = Landlord,
                  room_balance = js ''800'', displayName = None\<rparr>] False,
          \<lparr>roomsCache = Some [\<lparr>room_walletAddress = W1, roomNumber = 66, role = Landlord,
                                room_balance = js ''800'', displayName = None\<rparr>],
           roomsCacheMint = Some MINT, roomsCacheUpdatedAt = 30000,
           display_names = (\<lambda>w. None)\<rparr>)"
proof -
  let ?s = "\<lparr>roomsCache = Some [], roomsCacheMint = Some MINT, roomsCacheUpdatedAt = 0,
         display_names = (\<lambda>w. None)\<rparr>"
  have rm: "request_mint example_lib None = Inr (key 9)"
    by (simp add: request_mint_def example_lib_def)
  have hit: "cache_hit ?s (toBase58 (key 9)) 29999"
    by (simp add: cache_hit_def key_9 CACHE_TTL_MS_def)
  have miss: "\<not> cache_hit ?s (toBase58 (key 9)) 30000"
    by (simp add: cache_hit_def key_9 CACHE_TTL_MS_def)
  from cache_hit_or_recompute [OF rm, of ?s 29999 "Inr example_accounts"] hit
  have 1: "get_rooms example_lib ?s None 29999 (Inr example_accounts) = (Rooms [] True, ?s)"
    by simp
  from cache_hit_or_recompute [OF rm, of ?s 30000 "Inr example_accounts"] miss example_rooms
  have 2: "get_rooms example_lib ?s None 30000 (Inr example_accounts)
       = (Rooms [\<lparr>room_walletAddress = W1, roomNumber = 66, role = Landlord,
                  room_balance = js ''800'', displayName = None\<rparr>] False,
          ?s\<lparr>roomsCache := Some [\<lparr>room_walletAddress = W1, roomNumber = 66, role = Landlord,
                                room_balance = js ''800'', displayName = None\<rparr>],
           roomsCacheMint := Some (toBase58 (key 9)), roomsCacheUpdatedAt := 30000\<rparr>)"
    by simp
  from rm 1 2 show ?thesis by (simp add: key_9)
qed

subsection \<open>C8: the checks of a name update\<close>



subsection \<open>C9: concurrent misses\<close>

text \<open>
  C9 as stated does not hold of the handler: nothing records a fetch in flight. Two
  requests for the configured mint that arrive on the empty cache before any fetch has
  settled issue two calls of \<open>getProgramAccounts\<close>, not one.
\<close>

theorem two_misses_two_fetches:
  "fetches (run example_lib (start (\<lambda>w. None)) [GetRooms None 0, GetRooms None 0])
     = [MINT, MINT]
   \<and> length (fetches (run example_lib (start (\<lambda>w. None)) [GetRooms None 0, GetRooms None 0]))
       \<noteq> 1"
proof -
  let ?s0 = "start (\<lambda>w. None)"
  let ?M = "MINT"
  let ?s1 = "?s0\<lparr>suspended := suspended ?s0 @ [(?M, 0)], fetches := fetches ?s0 @ [?M]\<rparr>"
  have 1: "step example_lib ?s0 (GetRooms None 0) = ?s1"
    by (rule step_GetRooms_Awaiting) (rule begin_miss_on_start)
  have "srv ?s1 = srv ?s0" by simp
  then have "rooms_begin example_lib (srv ?s1) None 0 = Awaiting ?M 0"
    by (simp only: begin_miss_on_start)
  then have 2: "step example_lib ?s1 (GetRooms None 0)
      = ?s1\<lparr>suspended := suspended ?s1 @ [(?M, 0)], fetches := fetches ?s1 @ [?M]\<rparr>"
    by (rule step_GetRooms_Awaiting)
  have "fetches (run example_lib ?s0 [GetRooms None 0, GetRooms None 0]) = [?M, ?M]"
    unfolding run_def foldl.simps 1 2 by (simp add: start_def)
  then show ?thesis by simp
qed

text \<open>
  C9 (amended). Every directory request that misses the cache issues its own upstream
  fetch, whatever fetches are in flight: when \<open>n\<close> requests for the same mint arrive
  at a state on which such a request misses, before any fetch settles, \<open>n\<close> fetches for
  that mint are issued and \<open>n\<close> requests are suspended, each to be resumed with the
  result of its own fetch; the state of the server and the responses sent are unchanged
  by the arrivals.
\<close>

theorem every_miss_fetches:
  assumes "rooms_begin lib (srv sys) query_mint now = Awaiting mintBase58 t"
  shows "fetches (run lib sys (replicate n (GetRooms query_mint now)))
           = fetches sys @ replicate n mintBase58
       \<and> suspended (run lib sys (replicate n (GetRooms query_mint now)))
           = suspended sys @ replicate n (mintBase58, t)
       \<and> srv (run lib sys (replicate n (GetRooms query_mint now))) = srv sys
       \<and> responses (run lib sys (replicate n (GetRooms query_mint now))) = responses sys"
  using assms
proof (induction n arbitrary: sys)
  case 0
  show ?case by (simp add: run_def)
next
  case (Suc n)
  let ?sys1 = "sys\<lparr>suspended := suspended sys @ [(mintBase58, t)],
                    fetches := fetches sys @ [mintBase58]\<rparr>"
  have s: "step lib sys (GetRooms query_mint now) = ?sys1"
    using Suc.prems by (rule step_GetRooms_Awaiting)
  have "rooms_begin lib (srv ?sys1) query_mint now = Awaiting mintBase58 t"
    using Suc.prems by simp
  from Suc.IH [OF this] have ih:
    "fetches (run lib ?sys1 (replicate n (GetRooms query_mint now)))
           = fetches ?sys1 @ replicate n mintBase58"
    "suspended (run lib ?sys1 (replicate n (GetRooms query_mint now)))
           = suspended ?sys1 @ replicate n (mintBase58, t)"
    "srv (run lib ?sys1 (replicate n (GetRooms query_mint now))) = srv ?sys1"
    "responses (run lib ?sys1 (replicate n (GetRooms query_mint now))) = responses ?sys1"
    by blast+
  have r: "run lib sys (replicate (Suc n) (GetRooms query_mint now))
         = run lib ?sys1 (replicate n (GetRooms query_mint now))"
    unfolding run_def by (simp only: replicate_Suc foldl_Cons s)
  show ?case
    unfolding r using ih by (simp add: replicate_app_Cons_same)
qed

theorem every_miss_fetches_witness:
  "rooms_begin example_lib (srv (start (\<lambda>w. None))) None 0 = Awaiting MINT 0
   \<and> fetches (run example_lib (start (\<lambda>w. None)) (replicate 3 (GetRooms None 0)))
       = [MINT, MINT, MINT]"
  using every_miss_fetches [OF begin_miss_on_start [of "\<lambda>w. None" 0], where n = 3]
    begin_miss_on_start [of "\<lambda>w. None" 0]
  by (simp add: start_def replicate_numeral)

subsection \<open>C10: empty fields\<close>

text \<open>
  C10. A name update whose message or display name is present but empty is answered
  with 400, missing fields, and leaves the state as it is, whatever the other fields
  are: the prefix and the length of the name are not looked at.
\<close>

theorem empty_field_is_missing:
  assumes "body_message b = Some [] \<or> body_displayName b = Some []"
  shows "post_display_name lib s b now = (Error 400 (js ''Missing fields''), s)"
proof -
  have "\<not> truthy (body_walletAddress b) \<or> \<not> truthy (body_displayName b)
        \<or> \<not> truthy (body_message b) \<or> body_signature b = None"
    using assms by (auto simp: truthy_def)
  then show ?thesis
    by (simp add: post_display_name_def display_name_try_missing)
qed

theorem empty_field_is_missing_witness:
  "post_display_name example_lib (srv (start (\<lambda>w. None)))
     \<lparr>body_walletAddress = Some W1, body_displayName = Some [],
      body_message = Some (js ''RENTFREE_NAME_UPDATE_V1:''),
      body_signature = Some (replicate 64 7)\<rparr> 0
   = (Error 400 (js ''Missing fields''), srv (start (\<lambda>w. None)))"
  using empty_field_is_missing [of
      "\<lparr>body_walletAddress = Some W1, body_displayName = Some [],
        body_message = Some (js ''RENTFREE_NAME_UPDATE_V1:''),
        body_signature = Some (replicate 64 7)\<rparr>"
      example_lib "srv (start (\<lambda>w. None))" 0]
  by simp

end
